theory Spec2Isabelle
  imports Main
begin

section \<open>The store: tables of init.sql\<close>

text \<open>
  Every table is the list of its rows, in insertion order (which is the order of
  \<^verbatim>\<open>created_at\<close>; the timestamp itself is not kept). Identifiers are the
  positive integers of the SERIAL columns. The counters \<open>lists_seq\<close>, \<open>tasks_seq\<close>,
  \<open>subtasks_seq\<close> and \<open>tags_seq\<close> stand for the sequences behind the SERIAL defaults:
  a counter gives its value to an insert that succeeds and steps then, and it goes back
  with a rollback. PostgreSQL takes a value on every attempt and never gives one back;
  the handlers read an id only to link rows, so what matters here is that a new row's
  id is not in the table.

  \<^verbatim>\<open>completed BOOLEAN DEFAULT false\<close> has no NOT NULL in tasks and in subtasks: the
  column holds true, false or NULL, and \<open>None\<close> is NULL.
\<close>

record user_row =
  user_id :: nat
  user_name :: string
  user_email :: string

record list_row =
  list_id :: nat
  list_name :: string
  owner_id :: nat

record member_row =
  m_list_id :: nat
  m_user_id :: nat
  m_role :: string

record task_row =
  task_id :: nat
  task_list_id :: nat
  task_title :: string
  task_description :: "string option"
  task_priority :: "string option"
  task_due_date :: "string option"
  task_completed :: "bool option"

record subtask_row =
  subtask_id :: nat
  st_task_id :: nat
  st_title :: string
  st_completed :: "bool option"

record tag_row =
  tag_id :: nat
  tag_name :: string

record task_tag_row =
  tt_task_id :: nat
  tt_tag_id :: nat

record db =
  users :: "user_row list"
  lists :: "list_row list"
  list_members :: "member_row list"
  tasks :: "task_row list"
  subtasks :: "subtask_row list"
  tags :: "tag_row list"
  task_tags :: "task_tag_row list"
  lists_seq :: nat
  tasks_seq :: nat
  subtasks_seq :: nat
  tags_seq :: nat

text \<open>What a rejected \<^verbatim>\<open>pool.query\<close> throws.\<close>

datatype db_error = UniqueViolation | ForeignKeyViolation | StoreFailure

section \<open>Responses\<close>

text \<open>
  \<^verbatim>\<open>res.status(s).json(v)\<close> is the pair \<open>(s, v)\<close>; \<^verbatim>\<open>res.json(v)\<close> has
  status 200.
\<close>

datatype json =
    JNull
  | JBool bool
  | JNum nat
  | JStr string
  | JArr "json list"
  | JObj "(string \<times> json) list"

type_synonym response = "nat \<times> json"

definition err :: "string \<Rightarrow> json" where
  "err msg = JObj [(''error'', JStr msg)]"

definition internal_error :: response where
  "internal_error = (500, err ''Internal server error'')"

definition opt_str :: "string option \<Rightarrow> json" where
  "opt_str s = (case s of None \<Rightarrow> JNull | Some x \<Rightarrow> JStr x)"

definition opt_bool :: "bool option \<Rightarrow> json" where
  "opt_bool b = (case b of None \<Rightarrow> JNull | Some x \<Rightarrow> JBool x)"

text \<open>
  The \<^verbatim>\<open>completed\<close> field of a request body: left out (\<^verbatim>\<open>undefined\<close>), the JSON
  \<^verbatim>\<open>null\<close>, or a JSON boolean. No validator has a rule on it. Another JSON value is
  not modelled: the store either refuses it, and the request answers 500 with nothing
  written, or reads it as one of the two booleans.
\<close>

datatype completed_field = CUndefined | CNull | CBool bool

text \<open>\<^verbatim>\<open>!row.completed\<close> on a column value: \<^verbatim>\<open>!null\<close> is true.\<close>

definition js_not :: "bool option \<Rightarrow> bool" where
  "js_not c = (case c of None \<Rightarrow> True | Some b \<Rightarrow> \<not> b)"

section \<open>Strings\<close>

text \<open>
  \<^verbatim>\<open>String.prototype.toLowerCase\<close> and \<^verbatim>\<open>trim\<close>, on the ASCII range: a
  \<open>char\<close> is a byte, a byte outside \<open>A\<close>..\<open>Z\<close> is left as it is, and the white space
  is tab, line feed, vertical tab, form feed, carriage return and space. JavaScript also
  lower-cases the letters beyond ASCII and trims U+00A0 and the other Unicode white
  space: a name or an address with such characters is outside these two functions.
\<close>

definition toLowerCase_char :: "char \<Rightarrow> char" where
  "toLowerCase_char c =
     (case map_of (zip ''ABCDEFGHIJKLMNOPQRSTUVWXYZ'' ''abcdefghijklmnopqrstuvwxyz'') c of
        Some l \<Rightarrow> l
      | None \<Rightarrow> c)"

definition toLowerCase :: "string \<Rightarrow> string" where
  "toLowerCase s = map toLowerCase_char s"

definition is_space :: "char \<Rightarrow> bool" where
  "is_space c = (c \<in> set [CHR 0x09, CHR 0x0A, CHR 0x0B, CHR 0x0C, CHR 0x0D, CHR '' ''])"

definition trim :: "string \<Rightarrow> string" where
  "trim s = rev (dropWhile is_space (rev (dropWhile is_space s)))"

section \<open>Statements on list_members and lists\<close>

text \<open>
  \<^verbatim>\<open>INSERT INTO list_members (list_id, user_id, role)\<close>: the primary key
  \<open>(list_id, user_id)\<close> and the two foreign keys are checked.
\<close>

definition insert_member :: "nat \<Rightarrow> nat \<Rightarrow> string \<Rightarrow> db \<Rightarrow> db_error + db" where
  "insert_member lid uid role d =
     (if \<exists>m \<in> set (list_members d). m_list_id m = lid \<and> m_user_id m = uid
      then Inl UniqueViolation
      else if lid \<notin> list_id ` set (lists d) \<or> uid \<notin> user_id ` set (users d)
      then Inl ForeignKeyViolation
      else Inr (d\<lparr>list_members := list_members d @
                  [\<lparr>m_list_id = lid, m_user_id = uid, m_role = role\<rparr>]\<rparr>))"

text \<open>
  \<^verbatim>\<open>DELETE FROM list_members WHERE list_id = $1 AND user_id = $2\<close>, with its
  \<^verbatim>\<open>rowCount\<close>.
\<close>

definition delete_member :: "nat \<Rightarrow> nat \<Rightarrow> db \<Rightarrow> db \<times> nat" where
  "delete_member lid uid d =
     (d\<lparr>list_members := filter (\<lambda>m. \<not> (m_list_id m = lid \<and> m_user_id m = uid)) (list_members d)\<rparr>,
      length (filter (\<lambda>m. m_list_id m = lid \<and> m_user_id m = uid) (list_members d)))"

text \<open>\<^verbatim>\<open>UPDATE list_members SET role = $1 WHERE list_id = $2 AND user_id = $3\<close>.\<close>

definition update_member :: "string \<Rightarrow> nat \<Rightarrow> nat \<Rightarrow> db \<Rightarrow> db" where
  "update_member role lid uid d =
     d\<lparr>list_members :=
         map (\<lambda>m. if m_list_id m = lid \<and> m_user_id m = uid then m\<lparr>m_role := role\<rparr> else m)
           (list_members d)\<rparr>"

text \<open>\<^verbatim>\<open>UPDATE lists SET owner_id = $1 WHERE id = $2\<close>; owner_id references users.\<close>

definition update_owner :: "nat \<Rightarrow> nat \<Rightarrow> db \<Rightarrow> db_error + db" where
  "update_owner new_owner lid d =
     (if (\<exists>l \<in> set (lists d). list_id l = lid) \<and> new_owner \<notin> user_id ` set (users d)
      then Inl ForeignKeyViolation
      else Inr (d\<lparr>lists := map (\<lambda>l. if list_id l = lid then l\<lparr>owner_id := new_owner\<rparr> else l)
                              (lists d)\<rparr>))"

text \<open>
  \<^verbatim>\<open>INSERT INTO lists (name, owner_id) ... RETURNING\<close>: the id is the next value of
  the sequence.
\<close>

definition insert_list :: "string \<Rightarrow> nat \<Rightarrow> db \<Rightarrow> db_error + (list_row \<times> db)" where
  "insert_list name owner d =
     (let row = \<lparr>list_id = lists_seq d, list_name = name, owner_id = owner\<rparr> in
      if lists_seq d \<in> list_id ` set (lists d) then Inl UniqueViolation
      else if owner \<notin> user_id ` set (users d) then Inl ForeignKeyViolation
      else Inr (row, d\<lparr>lists := lists d @ [row], lists_seq := lists_seq d + 1\<rparr>))"

text \<open>\<^verbatim>\<open>SELECT id FROM lists WHERE id = $1 AND owner_id = $2\<close>.\<close>

definition owner_rows :: "db \<Rightarrow> nat \<Rightarrow> nat \<Rightarrow> nat list" where
  "owner_rows d lid uid = [list_id l. l \<leftarrow> lists d, list_id l = lid \<and> owner_id l = uid]"

text \<open>\<^verbatim>\<open>SELECT role FROM list_members WHERE list_id = $1 AND user_id = $2\<close>.\<close>

definition member_roles :: "db \<Rightarrow> nat \<Rightarrow> nat \<Rightarrow> string list" where
  "member_roles d lid uid =
     [m_role m. m \<leftarrow> list_members d, m_list_id m = lid \<and> m_user_id m = uid]"

text \<open>\<^verbatim>\<open>SELECT id, name, email FROM users WHERE email = $1\<close>.\<close>

definition users_by_email :: "db \<Rightarrow> string \<Rightarrow> user_row list" where
  "users_by_email d email = filter (\<lambda>u. user_email u = email) (users d)"

text \<open>
  \<^verbatim>\<open>lists l LEFT JOIN list_members lm ON l.id = lm.list_id AND lm.user_id = $1\<close>,
  for one row \<open>l\<close>: the matching membership rows, or one NULL row when there is none.
\<close>

definition left_join_member :: "db \<Rightarrow> list_row \<Rightarrow> nat \<Rightarrow> member_row option list" where
  "left_join_member d l uid =
     (case filter (\<lambda>m. m_list_id m = list_id l \<and> m_user_id m = uid) (list_members d) of
        [] \<Rightarrow> [None]
      | ms \<Rightarrow> map Some ms)"

section \<open>routes/listMembers.js\<close>

text \<open>
  A route is a chain: \<^verbatim>\<open>authenticateToken\<close>, the validators, the handler. The
  functions named \<open>_handler\<close> are the last link alone, the function that runs once
  \<^verbatim>\<open>authenticateToken\<close> has put the user's row into \<^verbatim>\<open>req.user\<close> and every
  validator has passed: it takes the store, that row and the request's parameters, and
  gives the store it leaves and the response. The outer \<^verbatim>\<open>catch\<close> of every handler
  answers 500. The routes themselves, validators included, come after the handlers.
\<close>

record perm_row =
  pr_id :: nat
  pr_owner_id :: "nat option"
  pr_role :: "string option"

definition checkListPermission :: "db \<Rightarrow> nat \<Rightarrow> nat \<Rightarrow> bool \<Rightarrow> perm_row option" where
  "checkListPermission d userId listId requireOwner =
     (let rows =
        (if requireOwner
         then [\<lparr>pr_id = list_id l, pr_owner_id = None, pr_role = None\<rparr>.
                 l \<leftarrow> filter (\<lambda>l. list_id l = listId) (lists d), owner_id l = userId]
         else [\<lparr>pr_id = list_id l, pr_owner_id = Some (owner_id l), pr_role = map_option m_role lm\<rparr>.
                 l \<leftarrow> filter (\<lambda>l. list_id l = listId) (lists d),
                 lm \<leftarrow> left_join_member d l userId,
                 owner_id l = userId \<or> map_option m_role lm = Some ''admin''])
      in case rows of [] \<Rightarrow> None | r # _ \<Rightarrow> Some r)"

text \<open>
  \<^verbatim>\<open>validateListMember\<close> (middleware/validation.js), the rule on \<^verbatim>\<open>role\<close>:
  optional, and one of member and admin when given. The e-mail rule
  (\<^verbatim>\<open>isEmail().normalizeEmail()\<close>) is the validator library's; the handler gets the
  address it leaves.
\<close>

definition validateListMember :: "string option \<Rightarrow> bool" where
  "validateListMember role =
     (case role of None \<Rightarrow> True | Some r \<Rightarrow> r \<in> set [''member'', ''admin''])"

definition validation_failed :: "string \<Rightarrow> response" where
  "validation_failed msg =
     (400, JObj [(''error'', JStr ''Validation failed''), (''details'', JArr [JStr msg])])"

text \<open>POST /:listId/members, the handler.\<close>

definition addMember_handler :: "db \<Rightarrow> user_row \<Rightarrow> nat \<Rightarrow> string \<Rightarrow> string option \<Rightarrow> db \<times> response" where
  "addMember_handler d u listId email role_opt =
     (let role = (case role_opt of None \<Rightarrow> ''member'' | Some r \<Rightarrow> r) in
      case checkListPermission d (user_id u) listId False of
        None \<Rightarrow>
          (d, (403, err ''Permission denied - only list owners and admins can add members''))
      | Some _ \<Rightarrow>
          (case users_by_email d email of
             [] \<Rightarrow> (d, (404, err ''User not found with this email address''))
           | userToAdd # _ \<Rightarrow>
               if owner_rows d listId (user_id userToAdd) \<noteq> []
               then (d, (409, err ''User is already the owner of this list''))
               else if member_roles d listId (user_id userToAdd) \<noteq> []
               then (d, (409, err ''User is already a member of this list''))
               else (case insert_member listId (user_id userToAdd) role d of
                       Inl e \<Rightarrow> (d, internal_error)
                     | Inr d' \<Rightarrow>
                         (d', (201, JObj [(''message'', JStr ''Member added successfully''),
                                 (''member'', JObj [(''id'', JNum (user_id userToAdd)),
                                    (''name'', JStr (user_name userToAdd)),
                                    (''email'', JStr (user_email userToAdd)),
                                    (''role'', JStr role)])])))))"

text \<open>
  POST /:listId/members from its second validator on: \<^verbatim>\<open>validateListMember\<close>, then
  the handler.
\<close>

definition addMember_validated :: "db \<Rightarrow> user_row \<Rightarrow> nat \<Rightarrow> string \<Rightarrow> string option \<Rightarrow> db \<times> response" where
  "addMember_validated d u listId email role_opt =
     (if validateListMember role_opt then addMember_handler d u listId email role_opt
      else (d, validation_failed ''Role must be member or admin''))"

text \<open>
  PUT /:listId/members/:userId, the handler. The body's \<^verbatim>\<open>role\<close> is \<open>None\<close> when
  left out.
\<close>

definition updateMemberRole_handler :: "db \<Rightarrow> user_row \<Rightarrow> nat \<Rightarrow> nat \<Rightarrow> string option \<Rightarrow> db \<times> response" where
  "updateMemberRole_handler d u listId userId role_opt =
     (case role_opt of
        None \<Rightarrow> (d, (400, err ''Role must be either \"member\" or \"admin\"''))
      | Some role \<Rightarrow>
          if role = [] \<or> role \<notin> set [''member'', ''admin'']
          then (d, (400, err ''Role must be either \"member\" or \"admin\"''))
          else
            (case checkListPermission d (user_id u) listId False of
               None \<Rightarrow>
                 (d, (403, err ''Permission denied - only list owners and admins can update member roles''))
             | Some _ \<Rightarrow>
                 if member_roles d listId userId = []
                 then (d, (404, err ''User is not a member of this list''))
                 else
                   (let d' = update_member role listId userId d;
                        returning =
                          [[(''name'', opt_str (map_option user_name (find (\<lambda>x. user_id x = userId) (users d')))),
                            (''email'', opt_str (map_option user_email (find (\<lambda>x. user_id x = userId) (users d')))),
                            (''role'', JStr (m_role m))].
                           m \<leftarrow> list_members d', m_list_id m = listId \<and> m_user_id m = userId]
                    in (d', (200, JObj [(''message'', JStr ''Member role updated successfully''),
                               (''member'', JObj ((''id'', JNum userId) #
                                  (case returning of [] \<Rightarrow> [] | r # _ \<Rightarrow> r)))])))))"

text \<open>DELETE /:listId/members/:userId, the handler.\<close>

definition removeMember_handler :: "db \<Rightarrow> user_row \<Rightarrow> nat \<Rightarrow> nat \<Rightarrow> db \<times> response" where
  "removeMember_handler d u listId userId =
     (case checkListPermission d (user_id u) listId False of
        None \<Rightarrow>
          (d, (403, err ''Permission denied - only list owners and admins can remove members''))
      | Some _ \<Rightarrow>
          if owner_rows d listId userId \<noteq> []
          then (d, (400, err ''Cannot remove the list owner''))
          else
            (case delete_member listId userId d of
               (d', rowCount) \<Rightarrow>
                 if rowCount = 0
                 then (d', (404, err ''User is not a member of this list''))
                 else (d', (200, JObj [(''message'', JStr ''Member removed successfully'')]))))"

text \<open>DELETE /:listId/leave, the handler.\<close>

definition leaveList_handler :: "db \<Rightarrow> user_row \<Rightarrow> nat \<Rightarrow> db \<times> response" where
  "leaveList_handler d u listId =
     (if owner_rows d listId (user_id u) \<noteq> []
      then (d, (400, err ''List owners cannot leave their own lists. Transfer ownership or delete the list instead.''))
      else
        (case delete_member listId (user_id u) d of
           (d', rowCount) \<Rightarrow>
             if rowCount = 0
             then (d', (404, err ''You are not a member of this list''))
             else (d', (200, JObj [(''message'', JStr ''Successfully left the list'')]))))"

text \<open>
  A statement of a transaction, under a fault plan: \<open>fault = Some k\<close> makes the \<open>k\<close>-th
  statement of the transaction throw instead of running (the store is lost, a timeout,
  a full disk); \<open>None\<close> injects nothing. A statement that throws writes nothing.
\<close>

definition stmt :: "nat option \<Rightarrow> nat \<Rightarrow> (db \<Rightarrow> db_error + 'a) \<Rightarrow> db \<Rightarrow> db_error + 'a" where
  "stmt fault k q d = (if fault = Some k then Inl StoreFailure else q d)"

text \<open>
  The body of the \<^verbatim>\<open>try\<close> block of the transfer, between BEGIN and COMMIT: the three
  statements, the first to throw ending the block.
\<close>

definition transfer_body :: "nat option \<Rightarrow> nat \<Rightarrow> nat \<Rightarrow> nat \<Rightarrow> db \<Rightarrow> db_error + db" where
  "transfer_body fault listId new_owner old_owner d =
     (case stmt fault 0 (\<lambda>x. Inr (fst (delete_member listId new_owner x))) d of
        Inl e \<Rightarrow> Inl e
      | Inr d1 \<Rightarrow>
          (case stmt fault 1 (insert_member listId old_owner ''admin'') d1 of
             Inl e \<Rightarrow> Inl e
           | Inr d2 \<Rightarrow> stmt fault 2 (update_owner new_owner listId) d2))"

text \<open>
  PUT /:listId/transfer-ownership, the handler. It sends BEGIN, the three statements and
  COMMIT or ROLLBACK through \<^verbatim>\<open>pool.query\<close>, which holds no client from one call to
  the next. Here the calls of one request run in order on one connection, with no other
  request between them: BEGIN keeps the state \<open>d\<close> it starts from, ROLLBACK goes back to
  it, COMMIT keeps the state the statements built. What the pool does with the calls of
  requests that overlap is not part of this function. The body's \<^verbatim>\<open>email\<close> is
  \<open>None\<close> when left out.
\<close>

definition transferOwnership_handler :: "nat option \<Rightarrow> db \<Rightarrow> user_row \<Rightarrow> nat \<Rightarrow> string option \<Rightarrow> db \<times> response" where
  "transferOwnership_handler fault d u listId email_opt =
     (case email_opt of
        None \<Rightarrow> (d, (400, err ''Email is required''))
      | Some email \<Rightarrow>
          if email = [] then (d, (400, err ''Email is required''))
          else
            (case checkListPermission d (user_id u) listId True of
               None \<Rightarrow>
                 (d, (403, err ''Permission denied - only list owners can transfer ownership''))
             | Some _ \<Rightarrow>
                 (case users_by_email d (toLowerCase email) of
                    [] \<Rightarrow> (d, (404, err ''User not found with this email address''))
                  | newOwner # _ \<Rightarrow>
                      if user_id newOwner = user_id u
                      then (d, (400, err ''You are already the owner of this list''))
                      else
                        (case transfer_body fault listId (user_id newOwner) (user_id u) d of
                           Inr d' \<Rightarrow>
                             (d', (200, JObj [(''message'', JStr ''Ownership transferred successfully''),
                                     (''new_owner'', JObj [(''id'', JNum (user_id newOwner)),
                                        (''name'', JStr (user_name newOwner)),
                                        (''email'', JStr (user_email newOwner))])]))
                         | Inl e \<Rightarrow> (d, internal_error)))))"

section \<open>routes/listMembers.js, the routes as they are wired\<close>

text \<open>
  \<^verbatim>\<open>validateId\<close> (middleware/validation.js) is the rule
  \<^verbatim>\<open>param('id').isInt({ min: 1 })\<close> followed by \<^verbatim>\<open>handleValidationErrors\<close>, which
  answers 400 when a rule failed. The path parameters of a request are the names the
  route's path binds, each with the number in its segment. A name the path does not
  bind has no value (\<^verbatim>\<open>undefined\<close>); the rule reads that as the empty string, which
  is no integer, so the rule fails.
\<close>

definition validateId :: "(string \<times> nat) list \<Rightarrow> bool" where
  "validateId params = (case map_of params ''id'' of None \<Rightarrow> False | Some n \<Rightarrow> 1 \<le> n)"

text \<open>
  Every route of routes/listMembers.js has \<^verbatim>\<open>validateId\<close> as its first validator,
  and no path of the file binds \<open>id\<close>: the paths bind \<open>listId\<close> and \<open>userId\<close>.
\<close>

text \<open>
  \<^verbatim>\<open>router.post('/:listId/members', authenticateToken, validateId, validateListMember, ...)\<close>.
\<close>

definition addMember :: "db \<Rightarrow> user_row \<Rightarrow> nat \<Rightarrow> string \<Rightarrow> string option \<Rightarrow> db \<times> response" where
  "addMember d u listId email role_opt =
     (if validateId [(''listId'', listId)] then addMember_validated d u listId email role_opt
      else (d, validation_failed ''ID must be a positive integer''))"

text \<open>\<^verbatim>\<open>router.put('/:listId/members/:userId', authenticateToken, validateId, ...)\<close>.\<close>

definition updateMemberRole :: "db \<Rightarrow> user_row \<Rightarrow> nat \<Rightarrow> nat \<Rightarrow> string option \<Rightarrow> db \<times> response" where
  "updateMemberRole d u listId userId role_opt =
     (if validateId [(''listId'', listId), (''userId'', userId)]
      then updateMemberRole_handler d u listId userId role_opt
      else (d, validation_failed ''ID must be a positive integer''))"

text \<open>\<^verbatim>\<open>router.delete('/:listId/members/:userId', authenticateToken, validateId, ...)\<close>.\<close>

definition removeMember :: "db \<Rightarrow> user_row \<Rightarrow> nat \<Rightarrow> nat \<Rightarrow> db \<times> response" where
  "removeMember d u listId userId =
     (if validateId [(''listId'', listId), (''userId'', userId)]
      then removeMember_handler d u listId userId
      else (d, validation_failed ''ID must be a positive integer''))"

text \<open>\<^verbatim>\<open>router.delete('/:listId/leave', authenticateToken, validateId, ...)\<close>.\<close>

definition leaveList :: "db \<Rightarrow> user_row \<Rightarrow> nat \<Rightarrow> db \<times> response" where
  "leaveList d u listId =
     (if validateId [(''listId'', listId)] then leaveList_handler d u listId
      else (d, validation_failed ''ID must be a positive integer''))"

text \<open>\<^verbatim>\<open>router.put('/:listId/transfer-ownership', authenticateToken, validateId, ...)\<close>.\<close>

definition transferOwnership :: "nat option \<Rightarrow> db \<Rightarrow> user_row \<Rightarrow> nat \<Rightarrow> string option \<Rightarrow> db \<times> response" where
  "transferOwnership fault d u listId email_opt =
     (if validateId [(''listId'', listId)] then transferOwnership_handler fault d u listId email_opt
      else (d, validation_failed ''ID must be a positive integer''))"

section \<open>routes/lists.js\<close>

record access_row =
  ar_id :: nat
  ar_name :: string
  ar_owner_id :: nat
  ar_owner_name :: string
  ar_user_role :: "string option"

text \<open>
  The access query of GET /:id. Its CASE gives \<open>owner\<close> to the owner and the membership
  row's role to the others; the WHERE clause drops the row of a user who is neither.
\<close>

definition accessCheck :: "db \<Rightarrow> nat \<Rightarrow> nat \<Rightarrow> access_row list" where
  "accessCheck d userId listId =
     [\<lparr>ar_id = list_id l, ar_name = list_name l, ar_owner_id = owner_id l,
       ar_owner_name = user_name w,
       ar_user_role = (if owner_id l = userId then Some ''owner'' else map_option m_role lm)\<rparr>.
      l \<leftarrow> filter (\<lambda>l. list_id l = listId) (lists d),
      w \<leftarrow> filter (\<lambda>w. user_id w = owner_id l) (users d),
      lm \<leftarrow> left_join_member d l userId,
      owner_id l = userId \<or> map_option m_user_id lm = Some userId]"

text \<open>
  POST /, the handler after \<^verbatim>\<open>validateList\<close>: the creator becomes the owner; no
  membership row is written.
\<close>

definition createList :: "db \<Rightarrow> user_row \<Rightarrow> string \<Rightarrow> db \<times> response" where
  "createList d u name =
     (case insert_list name (user_id u) d of
        Inl e \<Rightarrow> (d, internal_error)
      | Inr (l, d') \<Rightarrow>
          (d', (201, JObj [(''message'', JStr ''List created successfully''),
                  (''list'', JObj [(''id'', JNum (list_id l)), (''name'', JStr (list_name l)),
                     (''owner_id'', JNum (owner_id l)), (''owner_name'', JStr (user_name u)),
                     (''user_role'', JStr ''owner'')])])))"

section \<open>Statements on tasks, subtasks, tags and task_tags\<close>

text \<open>
  \<^verbatim>\<open>INSERT INTO tasks (list_id, title, description, priority, due_date) ... RETURNING *\<close>:
  \<open>completed\<close> takes its default, false.
\<close>

definition insert_task ::
  "nat \<Rightarrow> string \<Rightarrow> string option \<Rightarrow> string option \<Rightarrow> string option \<Rightarrow> db \<Rightarrow> db_error + (task_row \<times> db)" where
  "insert_task lid ttl descr prio due d =
     (let row = \<lparr>task_id = tasks_seq d, task_list_id = lid, task_title = ttl,
                 task_description = descr, task_priority = prio, task_due_date = due,
                 task_completed = Some False\<rparr> in
      if tasks_seq d \<in> task_id ` set (tasks d) then Inl UniqueViolation
      else if lid \<notin> list_id ` set (lists d) then Inl ForeignKeyViolation
      else Inr (row, d\<lparr>tasks := tasks d @ [row], tasks_seq := tasks_seq d + 1\<rparr>))"

text \<open>
  \<^verbatim>\<open>INSERT INTO tags (name) VALUES ($1) ON CONFLICT (name) DO UPDATE SET name = EXCLUDED.name RETURNING id\<close>:
  the id of the row of that name, which is written when there is none. (The counter
  steps only when a row is written; see the note on the counters above.)
\<close>

definition upsert_tag :: "string \<Rightarrow> db \<Rightarrow> db_error + (nat \<times> db)" where
  "upsert_tag name d =
     (case filter (\<lambda>g. tag_name g = name) (tags d) of
        g # _ \<Rightarrow> Inr (tag_id g, d)
      | [] \<Rightarrow>
          if tags_seq d \<in> tag_id ` set (tags d) then Inl UniqueViolation
          else Inr (tags_seq d,
                 d\<lparr>tags := tags d @ [\<lparr>tag_id = tags_seq d, tag_name = name\<rparr>],
                   tags_seq := tags_seq d + 1\<rparr>))"

text \<open>
  \<^verbatim>\<open>INSERT INTO task_tags (task_id, tag_id) VALUES ($1, $2)\<close>, as updateTask writes
  it: the primary key \<open>(task_id, tag_id)\<close> rejects a pair that is there.
\<close>

definition insert_task_tag :: "nat \<Rightarrow> nat \<Rightarrow> db \<Rightarrow> db_error + db" where
  "insert_task_tag tid gid d =
     (if \<exists>r \<in> set (task_tags d). tt_task_id r = tid \<and> tt_tag_id r = gid
      then Inl UniqueViolation
      else if tid \<notin> task_id ` set (tasks d) \<or> gid \<notin> tag_id ` set (tags d)
      then Inl ForeignKeyViolation
      else Inr (d\<lparr>task_tags := task_tags d @ [\<lparr>tt_task_id = tid, tt_tag_id = gid\<rparr>]\<rparr>))"

text \<open>The same insert with \<^verbatim>\<open>ON CONFLICT DO NOTHING\<close>, as createTask writes it.\<close>

definition insert_task_tag_do_nothing :: "nat \<Rightarrow> nat \<Rightarrow> db \<Rightarrow> db_error + db" where
  "insert_task_tag_do_nothing tid gid d =
     (if \<exists>r \<in> set (task_tags d). tt_task_id r = tid \<and> tt_tag_id r = gid
      then Inr d
      else insert_task_tag tid gid d)"

text \<open>\<^verbatim>\<open>DELETE FROM task_tags WHERE task_id = $1\<close>.\<close>

definition delete_task_tags :: "nat \<Rightarrow> db \<Rightarrow> db" where
  "delete_task_tags tid d = d\<lparr>task_tags := filter (\<lambda>r. tt_task_id r \<noteq> tid) (task_tags d)\<rparr>"

text \<open>
  \<^verbatim>\<open>UPDATE tasks SET title = $1, description = $2, priority = $3, due_date = $4, completed = $5 WHERE id = $6\<close>.
\<close>

definition update_task_row ::
  "string \<Rightarrow> string option \<Rightarrow> string option \<Rightarrow> string option \<Rightarrow> bool option \<Rightarrow> nat \<Rightarrow> db \<Rightarrow> db" where
  "update_task_row ttl descr prio due done tid d =
     d\<lparr>tasks := map (\<lambda>t. if task_id t = tid
                         then t\<lparr>task_title := ttl, task_description := descr, task_priority := prio,
                                task_due_date := due, task_completed := done\<rparr>
                         else t) (tasks d)\<rparr>"

text \<open>\<^verbatim>\<open>UPDATE tasks SET completed = $1 WHERE id = $2\<close>, with a boolean for \<^verbatim>\<open>$1\<close>.\<close>

definition set_task_completed :: "bool \<Rightarrow> nat \<Rightarrow> db \<Rightarrow> db" where
  "set_task_completed done tid d =
     d\<lparr>tasks := map (\<lambda>t. if task_id t = tid then t\<lparr>task_completed := Some done\<rparr> else t)
                   (tasks d)\<rparr>"

text \<open>
  \<^verbatim>\<open>DELETE FROM tasks WHERE id = $1\<close>; subtasks and task_tags reference tasks with
  ON DELETE CASCADE.
\<close>

definition delete_task :: "nat \<Rightarrow> db \<Rightarrow> db" where
  "delete_task tid d =
     d\<lparr>tasks := filter (\<lambda>t. task_id t \<noteq> tid) (tasks d),
       subtasks := filter (\<lambda>s. st_task_id s \<noteq> tid) (subtasks d),
       task_tags := filter (\<lambda>r. tt_task_id r \<noteq> tid) (task_tags d)\<rparr>"

text \<open>\<^verbatim>\<open>INSERT INTO subtasks (task_id, title) VALUES ($1, $2) RETURNING *\<close>.\<close>

definition insert_subtask :: "nat \<Rightarrow> string \<Rightarrow> db \<Rightarrow> db_error + (subtask_row \<times> db)" where
  "insert_subtask tid ttl d =
     (let row = \<lparr>subtask_id = subtasks_seq d, st_task_id = tid, st_title = ttl,
                 st_completed = Some False\<rparr> in
      if subtasks_seq d \<in> subtask_id ` set (subtasks d) then Inl UniqueViolation
      else if tid \<notin> task_id ` set (tasks d) then Inl ForeignKeyViolation
      else Inr (row, d\<lparr>subtasks := subtasks d @ [row], subtasks_seq := subtasks_seq d + 1\<rparr>))"

text \<open>\<^verbatim>\<open>UPDATE subtasks SET title = $1, completed = $2 WHERE id = $3\<close>.\<close>

definition update_subtask_row :: "string \<Rightarrow> bool option \<Rightarrow> nat \<Rightarrow> db \<Rightarrow> db" where
  "update_subtask_row ttl done sid d =
     d\<lparr>subtasks := map (\<lambda>s. if subtask_id s = sid then s\<lparr>st_title := ttl, st_completed := done\<rparr>
                            else s) (subtasks d)\<rparr>"

text \<open>\<^verbatim>\<open>UPDATE subtasks SET completed = $1 WHERE id = $2\<close>, with a boolean for \<^verbatim>\<open>$1\<close>.\<close>

definition set_subtask_completed :: "bool \<Rightarrow> nat \<Rightarrow> db \<Rightarrow> db" where
  "set_subtask_completed done sid d =
     d\<lparr>subtasks := map (\<lambda>s. if subtask_id s = sid then s\<lparr>st_completed := Some done\<rparr> else s)
                      (subtasks d)\<rparr>"

text \<open>\<^verbatim>\<open>DELETE FROM subtasks WHERE id = $1\<close>.\<close>

definition delete_subtask :: "nat \<Rightarrow> db \<Rightarrow> db" where
  "delete_subtask sid d = d\<lparr>subtasks := filter (\<lambda>s. subtask_id s \<noteq> sid) (subtasks d)\<rparr>"

text \<open>
  \<^verbatim>\<open>SELECT s.*, t.list_id FROM subtasks s JOIN tasks t ON s.task_id = t.id WHERE s.id = $1\<close>.
\<close>

definition subtask_with_list :: "db \<Rightarrow> nat \<Rightarrow> (subtask_row \<times> nat) list" where
  "subtask_with_list d sid =
     [(s, task_list_id t). s \<leftarrow> filter (\<lambda>s. subtask_id s = sid) (subtasks d),
                           t \<leftarrow> filter (\<lambda>t. task_id t = st_task_id s) (tasks d)]"

section \<open>JSON of the rows\<close>

definition task_fields :: "task_row \<Rightarrow> (string \<times> json) list" where
  "task_fields t =
     [(''id'', JNum (task_id t)), (''list_id'', JNum (task_list_id t)),
      (''title'', JStr (task_title t)), (''description'', opt_str (task_description t)),
      (''priority'', opt_str (task_priority t)), (''due_date'', opt_str (task_due_date t)),
      (''completed'', opt_bool (task_completed t))]"

definition subtask_json :: "subtask_row \<Rightarrow> json" where
  "subtask_json s =
     JObj [(''id'', JNum (subtask_id s)), (''task_id'', JNum (st_task_id s)),
           (''title'', JStr (st_title s)), (''completed'', opt_bool (st_completed s))]"

text \<open>\<^verbatim>\<open>SELECT id, title, completed, created_at FROM subtasks\<close>, as GET /:id of a task reads them.\<close>

definition subtask_brief :: "subtask_row \<Rightarrow> json" where
  "subtask_brief s =
     JObj [(''id'', JNum (subtask_id s)), (''title'', JStr (st_title s)),
           (''completed'', opt_bool (st_completed s))]"

text \<open>
  The \<^verbatim>\<open>array_agg\<close> of a task's tags over task_tags and tags, with the \<^verbatim>\<open>|| []\<close>
  of the handlers: the empty array when the task has no tag.
\<close>

definition tags_json :: "db \<Rightarrow> nat \<Rightarrow> json" where
  "tags_json d tid =
     JArr [JObj [(''id'', JNum (tag_id g)), (''name'', JStr (tag_name g))].
           r \<leftarrow> task_tags d, tt_task_id r = tid, g \<leftarrow> tags d, tag_id g = tt_tag_id r]"

definition task_with_tags :: "db \<Rightarrow> nat \<Rightarrow> json list" where
  "task_with_tags d tid =
     [JObj (task_fields t @ [(''tags'', tags_json d tid)]). t \<leftarrow> tasks d, task_id t = tid]"

section \<open>routes/tasks.js\<close>

definition checkListAccess :: "db \<Rightarrow> nat \<Rightarrow> nat \<Rightarrow> perm_row option" where
  "checkListAccess d userId listId =
     (case [\<lparr>pr_id = list_id l, pr_owner_id = Some (owner_id l), pr_role = map_option m_role lm\<rparr>.
              l \<leftarrow> filter (\<lambda>l. list_id l = listId) (lists d),
              lm \<leftarrow> left_join_member d l userId,
              owner_id l = userId \<or> map_option m_user_id lm = Some userId] of
        [] \<Rightarrow> None
      | r # _ \<Rightarrow> Some r)"

text \<open>GET /:id.\<close>

definition getTask :: "db \<Rightarrow> user_row \<Rightarrow> nat \<Rightarrow> response" where
  "getTask d u taskId =
     (case filter (\<lambda>t. task_id t = taskId) (tasks d) of
        [] \<Rightarrow> (404, err ''Task not found'')
      | task # _ \<Rightarrow>
          (case checkListAccess d (user_id u) (task_list_id task) of
             None \<Rightarrow> (404, err ''Task not found or access denied'')
           | Some _ \<Rightarrow>
               (200, JObj [(''task'', JObj (task_fields task @
                       [(''tags'', tags_json d taskId),
                        (''subtasks'', JArr (map subtask_brief
                            (filter (\<lambda>s. st_task_id s = taskId) (subtasks d))))]))])))"

text \<open>The tag loop of POST /.\<close>

fun create_tags :: "nat \<Rightarrow> string list \<Rightarrow> db \<Rightarrow> db_error + db" where
  "create_tags tid [] d = Inr d"
| "create_tags tid (tagName # rest) d =
     (case upsert_tag (toLowerCase (trim tagName)) d of
        Inl e \<Rightarrow> Inl e
      | Inr (tagId, d1) \<Rightarrow>
          (case insert_task_tag_do_nothing tid tagId d1 of
             Inl e \<Rightarrow> Inl e
           | Inr d2 \<Rightarrow> create_tags tid rest d2))"

text \<open>
  The \<^verbatim>\<open>try\<close> block of POST / between BEGIN and COMMIT. The body's \<^verbatim>\<open>tags\<close> is
  \<open>None\<close> when it is left out or is no array.
\<close>

definition createTask_body ::
  "nat \<Rightarrow> string \<Rightarrow> string option \<Rightarrow> string option \<Rightarrow> string option \<Rightarrow> string list option \<Rightarrow> db
     \<Rightarrow> db_error + (task_row \<times> db)" where
  "createTask_body lid ttl descr prio due tags_opt d =
     (case insert_task lid ttl descr prio due d of
        Inl e \<Rightarrow> Inl e
      | Inr (task, d1) \<Rightarrow>
          (case tags_opt of
             None \<Rightarrow> Inr (task, d1)
           | Some tgs \<Rightarrow>
               (case create_tags (task_id task) tgs d1 of
                  Inl e \<Rightarrow> Inl e
                | Inr d2 \<Rightarrow> Inr (task, d2))))"

text \<open>POST /, after \<^verbatim>\<open>validateTask\<close>.\<close>

definition createTask ::
  "db \<Rightarrow> user_row \<Rightarrow> nat \<Rightarrow> string \<Rightarrow> string option \<Rightarrow> string option \<Rightarrow> string option \<Rightarrow> string list option
     \<Rightarrow> db \<times> response" where
  "createTask d u lid ttl descr prio due tags_opt =
     (case checkListAccess d (user_id u) lid of
        None \<Rightarrow> (d, (404, err ''List not found or access denied''))
      | Some _ \<Rightarrow>
          (case createTask_body lid ttl descr prio due tags_opt d of
             Inl e \<Rightarrow> (d, internal_error)
           | Inr (task, d') \<Rightarrow>
               (case task_with_tags d' (task_id task) of
                  [] \<Rightarrow> (d', internal_error)
                | row # _ \<Rightarrow>
                    (d', (201, JObj [(''message'', JStr ''Task created successfully''),
                            (''task'', row)])))))"

text \<open>The tag loop of PUT /:id: a name that is empty after trim is skipped.\<close>

fun update_tags :: "nat \<Rightarrow> string list \<Rightarrow> db \<Rightarrow> db_error + db" where
  "update_tags tid [] d = Inr d"
| "update_tags tid (tagName # rest) d =
     (if tagName \<noteq> [] \<and> trim tagName \<noteq> []
      then
        (case upsert_tag (toLowerCase (trim tagName)) d of
           Inl e \<Rightarrow> Inl e
         | Inr (tagId, d1) \<Rightarrow>
             (case insert_task_tag tid tagId d1 of
                Inl e \<Rightarrow> Inl e
              | Inr d2 \<Rightarrow> update_tags tid rest d2))
      else update_tags tid rest d)"

text \<open>
  The \<^verbatim>\<open>try\<close> block of PUT /:id between BEGIN and COMMIT. The value written to
  the column is \<^verbatim>\<open>completed !== undefined ? completed : false\<close>: false when the
  field is left out, NULL when it is \<^verbatim>\<open>null\<close>.
\<close>

definition updateTask_completed :: "completed_field \<Rightarrow> bool option" where
  "updateTask_completed c = (case c of CUndefined \<Rightarrow> Some False | CNull \<Rightarrow> None | CBool b \<Rightarrow> Some b)"

definition updateTask_body ::
  "nat \<Rightarrow> string \<Rightarrow> string option \<Rightarrow> string option \<Rightarrow> string option \<Rightarrow> completed_field \<Rightarrow> string list option \<Rightarrow> db
     \<Rightarrow> db_error + db" where
  "updateTask_body tid ttl descr prio due completed tags_opt d =
     (let d1 = update_task_row ttl descr prio due (updateTask_completed completed) tid d in
      case tags_opt of
        None \<Rightarrow> Inr d1
      | Some tgs \<Rightarrow> update_tags tid tgs (delete_task_tags tid d1))"

text \<open>PUT /:id, after \<^verbatim>\<open>validateTask\<close>.\<close>

definition updateTask ::
  "db \<Rightarrow> user_row \<Rightarrow> nat \<Rightarrow> string \<Rightarrow> string option \<Rightarrow> string option \<Rightarrow> string option \<Rightarrow> completed_field
     \<Rightarrow> string list option \<Rightarrow> db \<times> response" where
  "updateTask d u taskId ttl descr prio due completed tags_opt =
     (case filter (\<lambda>t. task_id t = taskId) (tasks d) of
        [] \<Rightarrow> (d, (404, err ''Task not found''))
      | task # _ \<Rightarrow>
          (case checkListAccess d (user_id u) (task_list_id task) of
             None \<Rightarrow> (d, (404, err ''Task not found or access denied''))
           | Some _ \<Rightarrow>
               (case updateTask_body taskId ttl descr prio due completed tags_opt d of
                  Inl e \<Rightarrow> (d, internal_error)
                | Inr d' \<Rightarrow>
                    (case task_with_tags d' taskId of
                       [] \<Rightarrow> (d', internal_error)
                     | row # _ \<Rightarrow>
                         (d', (200, JObj [(''message'', JStr ''Task updated successfully''),
                                 (''task'', row)]))))))"

text \<open>PATCH /:id/toggle.\<close>

definition toggleTask :: "db \<Rightarrow> user_row \<Rightarrow> nat \<Rightarrow> db \<times> response" where
  "toggleTask d u taskId =
     (case filter (\<lambda>t. task_id t = taskId) (tasks d) of
        [] \<Rightarrow> (d, (404, err ''Task not found''))
      | task # _ \<Rightarrow>
          (case checkListAccess d (user_id u) (task_list_id task) of
             None \<Rightarrow> (d, (404, err ''Task not found or access denied''))
           | Some _ \<Rightarrow>
               (let d' = set_task_completed (js_not (task_completed task)) taskId d in
                (d', (200, JObj [(''message'', JStr ''Task completion toggled successfully''),
                        (''task'', (case filter (\<lambda>t. task_id t = taskId) (tasks d') of
                                      [] \<Rightarrow> JNull
                                    | t # _ \<Rightarrow> JObj (task_fields t)))])))))"

text \<open>DELETE /:id.\<close>

definition deleteTask :: "db \<Rightarrow> user_row \<Rightarrow> nat \<Rightarrow> db \<times> response" where
  "deleteTask d u taskId =
     (case filter (\<lambda>t. task_id t = taskId) (tasks d) of
        [] \<Rightarrow> (d, (404, err ''Task not found''))
      | task # _ \<Rightarrow>
          (case checkListAccess d (user_id u) (task_list_id task) of
             None \<Rightarrow> (d, (404, err ''Task not found or access denied''))
           | Some _ \<Rightarrow>
               (delete_task taskId d, (200, JObj [(''message'', JStr ''Task deleted successfully'')]))))"

text \<open>POST /:taskId/subtasks.\<close>

definition createSubtask :: "db \<Rightarrow> user_row \<Rightarrow> nat \<Rightarrow> string \<Rightarrow> db \<times> response" where
  "createSubtask d u taskId ttl =
     (case filter (\<lambda>t. task_id t = taskId) (tasks d) of
        [] \<Rightarrow> (d, (404, err ''Task not found''))
      | task # _ \<Rightarrow>
          (case checkListAccess d (user_id u) (task_list_id task) of
             None \<Rightarrow> (d, (404, err ''Task not found or access denied''))
           | Some _ \<Rightarrow>
               (case insert_subtask taskId ttl d of
                  Inl e \<Rightarrow> (d, internal_error)
                | Inr (s, d') \<Rightarrow>
                    (d', (201, JObj [(''message'', JStr ''Subtask created successfully''),
                            (''subtask'', subtask_json s)])))))"

text \<open>
  PUT /subtasks/:subtaskId. The value written to the column is
  \<^verbatim>\<open>completed !== undefined ? completed : subtask.completed\<close>: the stored value when
  the field is left out, NULL when it is \<^verbatim>\<open>null\<close>.
\<close>

definition updateSubtask_completed :: "completed_field \<Rightarrow> bool option \<Rightarrow> bool option" where
  "updateSubtask_completed c stored =
     (case c of CUndefined \<Rightarrow> stored | CNull \<Rightarrow> None | CBool b \<Rightarrow> Some b)"

definition updateSubtask :: "db \<Rightarrow> user_row \<Rightarrow> nat \<Rightarrow> string \<Rightarrow> completed_field \<Rightarrow> db \<times> response" where
  "updateSubtask d u subtaskId ttl completed =
     (case subtask_with_list d subtaskId of
        [] \<Rightarrow> (d, (404, err ''Subtask not found''))
      | (subtask, lid) # _ \<Rightarrow>
          (case checkListAccess d (user_id u) lid of
             None \<Rightarrow> (d, (404, err ''Subtask not found or access denied''))
           | Some _ \<Rightarrow>
               (let d' = update_subtask_row ttl
                           (updateSubtask_completed completed (st_completed subtask))
                           subtaskId d in
                (d', (200, JObj [(''message'', JStr ''Subtask updated successfully''),
                        (''subtask'', (case filter (\<lambda>s. subtask_id s = subtaskId) (subtasks d') of
                                         [] \<Rightarrow> JNull
                                       | s # _ \<Rightarrow> subtask_json s))])))))"

text \<open>PATCH /subtasks/:subtaskId/toggle.\<close>

definition toggleSubtask :: "db \<Rightarrow> user_row \<Rightarrow> nat \<Rightarrow> db \<times> response" where
  "toggleSubtask d u subtaskId =
     (case subtask_with_list d subtaskId of
        [] \<Rightarrow> (d, (404, err ''Subtask not found''))
      | (subtask, lid) # _ \<Rightarrow>
          (case checkListAccess d (user_id u) lid of
             None \<Rightarrow> (d, (404, err ''Subtask not found or access denied''))
           | Some _ \<Rightarrow>
               (let d' = set_subtask_completed (js_not (st_completed subtask)) subtaskId d in
                (d', (200, JObj [(''message'', JStr ''Subtask completion toggled successfully''),
                        (''subtask'', (case filter (\<lambda>s. subtask_id s = subtaskId) (subtasks d') of
                                         [] \<Rightarrow> JNull
                                       | s # _ \<Rightarrow> subtask_json s))])))))"

text \<open>DELETE /subtasks/:subtaskId.\<close>

definition deleteSubtask :: "db \<Rightarrow> user_row \<Rightarrow> nat \<Rightarrow> db \<times> response" where
  "deleteSubtask d u subtaskId =
     (case subtask_with_list d subtaskId of
        [] \<Rightarrow> (d, (404, err ''Subtask not found''))
      | (subtask, lid) # _ \<Rightarrow>
          (case checkListAccess d (user_id u) lid of
             None \<Rightarrow> (d, (404, err ''Subtask not found or access denied''))
           | Some _ \<Rightarrow>
               (delete_subtask subtaskId d,
                (200, JObj [(''message'', JStr ''Subtask deleted successfully'')]))))"

section \<open>routes/lists.js, GET /:id\<close>

text \<open>
  The tasks of a list, newest first, each with its tags and its subtasks (oldest first),
  as the handler builds them from its three queries.
\<close>

definition tasksWithSubtasks :: "db \<Rightarrow> nat \<Rightarrow> json list" where
  "tasksWithSubtasks d listId =
     [JObj [(''id'', JNum (task_id t)), (''title'', JStr (task_title t)),
            (''description'', opt_str (task_description t)),
            (''priority'', opt_str (task_priority t)),
            (''due_date'', opt_str (task_due_date t)),
            (''completed'', opt_bool (task_completed t)),
            (''tags'', tags_json d (task_id t)),
            (''subtasks'', JArr (map subtask_json
                (filter (\<lambda>s. st_task_id s = task_id t) (subtasks d))))].
      t \<leftarrow> rev (filter (\<lambda>t. task_list_id t = listId) (tasks d))]"

definition getList :: "db \<Rightarrow> user_row \<Rightarrow> nat \<Rightarrow> response" where
  "getList d u listId =
     (case accessCheck d (user_id u) listId of
        [] \<Rightarrow> (404, err ''List not found or access denied'')
      | l # _ \<Rightarrow>
          (200, JObj [(''list'', JObj [(''id'', JNum (ar_id l)), (''name'', JStr (ar_name l)),
                   (''owner_id'', JNum (ar_owner_id l)), (''owner_name'', JStr (ar_owner_name l)),
                   (''user_role'', opt_str (ar_user_role l)),
                   (''tasks'', JArr (tasksWithSubtasks d listId))])]))"

section \<open>Sequences of membership operations\<close>

text \<open>
  The public operations on lists and memberships, each with the principal that calls it
  and its arguments (and, for the transfer, a fault plan), and the store a sequence of
  calls leaves. A membership operation is taken at its handler (for addMember, from
  \<^verbatim>\<open>validateListMember\<close> on), so that a sequence can write everything the handlers
  can write; the wired routes write less.
\<close>

datatype op =
    CreateList user_row string
  | AddMember user_row nat string "string option"
  | UpdateMemberRole user_row nat nat "string option"
  | RemoveMember user_row nat nat
  | LeaveList user_row nat
  | TransferOwnership "nat option" user_row nat "string option"

fun apply_op :: "db \<Rightarrow> op \<Rightarrow> db" where
  "apply_op d (CreateList u name) = fst (createList d u name)"
| "apply_op d (AddMember u listId email role) = fst (addMember_validated d u listId email role)"
| "apply_op d (UpdateMemberRole u listId userId role) = fst (updateMemberRole_handler d u listId userId role)"
| "apply_op d (RemoveMember u listId userId) = fst (removeMember_handler d u listId userId)"
| "apply_op d (LeaveList u listId) = fst (leaveList_handler d u listId)"
| "apply_op d (TransferOwnership fault u listId email) = fst (transferOwnership_handler fault d u listId email)"

definition run :: "db \<Rightarrow> op list \<Rightarrow> db" where
  "run d ops = foldl apply_op d ops"

text \<open>No list has a membership row for its own owner.\<close>

definition owner_not_member :: "db \<Rightarrow> bool" where
  "owner_not_member d =
     (\<forall>l \<in> set (lists d). \<forall>m \<in> set (list_members d).
        \<not> (m_list_id m = list_id l \<and> m_user_id m = owner_id l))"

text \<open>The foreign key of list_members into lists.\<close>

definition members_reference_lists :: "db \<Rightarrow> bool" where
  "members_reference_lists d =
     (\<forall>m \<in> set (list_members d). m_list_id m \<in> list_id ` set (lists d))"

text \<open>Every membership row has the role member or admin.\<close>

definition roles_valid :: "db \<Rightarrow> bool" where
  "roles_valid d = (\<forall>m \<in> set (list_members d). m_role m \<in> set [''member'', ''admin''])"

section \<open>Roles, read off the tables\<close>

text \<open>
  The user owns the list; the user has a membership row on the list; the list is in the
  store and the user has a membership row with role admin on it; the user is owner or
  admin of the list.
\<close>

definition is_owner :: "db \<Rightarrow> nat \<Rightarrow> nat \<Rightarrow> bool" where
  "is_owner d lid uid = (\<exists>l \<in> set (lists d). list_id l = lid \<and> owner_id l = uid)"

definition has_membership :: "db \<Rightarrow> nat \<Rightarrow> nat \<Rightarrow> bool" where
  "has_membership d lid uid =
     (\<exists>m \<in> set (list_members d). m_list_id m = lid \<and> m_user_id m = uid)"

definition is_admin :: "db \<Rightarrow> nat \<Rightarrow> nat \<Rightarrow> bool" where
  "is_admin d lid uid =
     ((\<exists>l \<in> set (lists d). list_id l = lid) \<and>
      (\<exists>m \<in> set (list_members d). m_list_id m = lid \<and> m_user_id m = uid \<and> m_role m = ''admin''))"

definition may_manage :: "db \<Rightarrow> nat \<Rightarrow> nat \<Rightarrow> bool" where
  "may_manage d lid uid = (is_owner d lid uid \<or> is_admin d lid uid)"

text \<open>
  The \<^verbatim>\<open>user_role\<close> column of the row GET /:id of a list answers with; \<open>None\<close> when
  its access query gives no row and the handler answers 404.
\<close>

definition user_role :: "db \<Rightarrow> nat \<Rightarrow> nat \<Rightarrow> string option" where
  "user_role d uid lid = (case accessCheck d uid lid of [] \<Rightarrow> None | r # _ \<Rightarrow> ar_user_role r)"

text \<open>The membership invariant and the foreign key it is proved with.\<close>

definition membership_inv :: "db \<Rightarrow> bool" where
  "membership_inv d = (owner_not_member d \<and> members_reference_lists d)"

section \<open>A small store\<close>

text \<open>
  Alice owns the list Groceries, Bob is a member of it, Carol has no role on it. The list
  holds one completed task with one completed subtask.
\<close>

definition alice :: user_row where
  "alice = \<lparr>user_id = 1, user_name = ''Alice'', user_email = ''alice@example.com''\<rparr>"

definition bob :: user_row where
  "bob = \<lparr>user_id = 2, user_name = ''Bob'', user_email = ''bob@example.com''\<rparr>"

definition carol :: user_row where
  "carol = \<lparr>user_id = 3, user_name = ''Carol'', user_email = ''carol@example.com''\<rparr>"

definition milk :: task_row where
  "milk = \<lparr>task_id = 1, task_list_id = 1, task_title = ''Buy milk'', task_description = None,
            task_priority = None, task_due_date = None, task_completed = Some True\<rparr>"

definition fridge :: subtask_row where
  "fridge = \<lparr>subtask_id = 1, st_task_id = 1, st_title = ''Check fridge'', st_completed = Some True\<rparr>"

definition groceries :: db where
  "groceries =
     \<lparr>users = [alice, bob, carol],
      lists = [\<lparr>list_id = 1, list_name = ''Groceries'', owner_id = 1\<rparr>],
      list_members = [\<lparr>m_list_id = 1, m_user_id = 2, m_role = ''member''\<rparr>],
      tasks = [milk],
      subtasks = [fridge],
      tags = [],
      task_tags = [],
      lists_seq = 2, tasks_seq = 2, subtasks_seq = 2, tags_seq = 1\<rparr>"

text \<open>The store after registration: three users, no list.\<close>

definition registered :: db where
  "registered =
     \<lparr>users = [alice, bob, carol], lists = [], list_members = [], tasks = [], subtasks = [],
      tags = [], task_tags = [],
      lists_seq = 1, tasks_seq = 1, subtasks_seq = 1, tags_seq = 1\<rparr>"

lemmas ex_defs = alice_def bob_def carol_def milk_def fridge_def groceries_def

section \<open>Tables with a primary key\<close>

lemma filter_key_singleton:
  "distinct (map f xs) \<Longrightarrow> x \<in> set xs \<Longrightarrow> filter (\<lambda>y. f y = f x) xs = [x]"
proof (induction xs)
  case Nil
  then show ?case by simp
next
  case (Cons a xs)
  show ?case
  proof (cases "a = x")
    case True
    with Cons.prems have "f x \<notin> f ` set xs" by simp
    then have "filter (\<lambda>y. f y = f x) xs = []"
      unfolding filter_empty_conv by (metis image_eqI)
    with True show ?thesis by simp
  next
    case False
    with Cons.prems have "x \<in> set xs" "f a \<noteq> f x" by auto
    with Cons show ?thesis by simp
  qed
qed

lemma checkListAccess_tasks [simp]:
  "checkListAccess (d\<lparr>tasks := ts\<rparr>) uid lid = checkListAccess d uid lid"
  by (simp add: checkListAccess_def left_join_member_def)

lemma checkListAccess_set_task_completed [simp]:
  "checkListAccess (set_task_completed b tid d) uid lid = checkListAccess d uid lid"
  by (simp add: set_task_completed_def)

lemma pk_unique:
  "distinct (map f xs) \<Longrightarrow> x \<in> set xs \<Longrightarrow> y \<in> set xs \<Longrightarrow> f y = f x \<Longrightarrow> y = x"
  by (meson distinct_map inj_onD)




section \<open>Toggling a task\<close>




section \<open>What the task and subtask handlers write\<close>

lemma upsert_tag_frame:
  "upsert_tag n d = Inr (g, d') \<Longrightarrow>
     users d' = users d \<and> lists d' = lists d \<and> list_members d' = list_members d
     \<and> tasks d' = tasks d \<and> subtasks d' = subtasks d \<and> task_tags d' = task_tags d"
  by (auto simp: upsert_tag_def split: list.splits if_splits)

lemma insert_task_tag_frame:
  "insert_task_tag t g d = Inr d' \<Longrightarrow>
     users d' = users d \<and> lists d' = lists d \<and> list_members d' = list_members d
     \<and> tasks d' = tasks d \<and> subtasks d' = subtasks d \<and> tags d' = tags d"
  by (auto simp: insert_task_tag_def split: if_splits)

lemma insert_task_tag_do_nothing_frame:
  "insert_task_tag_do_nothing t g d = Inr d' \<Longrightarrow>
     users d' = users d \<and> lists d' = lists d \<and> list_members d' = list_members d
     \<and> tasks d' = tasks d \<and> subtasks d' = subtasks d \<and> tags d' = tags d"
  by (auto simp: insert_task_tag_do_nothing_def dest: insert_task_tag_frame split: if_splits)

lemma update_tags_frame:
  "update_tags tid tgs d = Inr d' \<Longrightarrow>
     users d' = users d \<and> lists d' = lists d \<and> list_members d' = list_members d
     \<and> tasks d' = tasks d \<and> subtasks d' = subtasks d"
proof (induction tgs arbitrary: d)
  case Nil
  then show ?case by simp
next
  case (Cons a tgs)
  show ?case
  proof (cases "a \<noteq> [] \<and> trim a \<noteq> []")
    case False
    with Cons show ?thesis by auto
  next
    case True
    with Cons.prems obtain g d1 d2 where
      a: "upsert_tag (toLowerCase (trim a)) d = Inr (g, d1)"
      and b: "insert_task_tag tid g d1 = Inr d2"
      and c: "update_tags tid tgs d2 = Inr d'"
      by (auto split: sum.splits)
    from Cons.IH[OF c] upsert_tag_frame[OF a] insert_task_tag_frame[OF b]
    show ?thesis by simp
  qed
qed

lemma create_tags_frame:
  "create_tags tid tgs d = Inr d' \<Longrightarrow>
     users d' = users d \<and> lists d' = lists d \<and> list_members d' = list_members d
     \<and> tasks d' = tasks d \<and> subtasks d' = subtasks d"
proof (induction tgs arbitrary: d)
  case Nil
  then show ?case by simp
next
  case (Cons a tgs)
  from Cons.prems obtain g d1 d2 where
    a: "upsert_tag (toLowerCase (trim a)) d = Inr (g, d1)"
    and b: "insert_task_tag_do_nothing tid g d1 = Inr d2"
    and c: "create_tags tid tgs d2 = Inr d'"
    by (auto split: sum.splits)
  from Cons.IH[OF c] upsert_tag_frame[OF a] insert_task_tag_do_nothing_frame[OF b]
  show ?case by simp
qed

lemma updateTask_body_tasks:
  "updateTask_body tid ttl descr prio due c tgs d = Inr d' \<Longrightarrow>
     tasks d' = tasks (update_task_row ttl descr prio due (updateTask_completed c) tid d)
     \<and> subtasks d' = subtasks d"
  by (auto simp: updateTask_body_def Let_def update_task_row_def delete_task_tags_def
        dest!: update_tags_frame split: option.splits)

lemma task_with_tags_nonempty:
  "filter (\<lambda>t. task_id t = tid) (tasks d) \<noteq> [] \<Longrightarrow> task_with_tags d tid \<noteq> []"
  by (auto simp: task_with_tags_def filter_empty_conv)

lemma update_task_row_ids:
  "map task_id (tasks (update_task_row ttl descr prio due b tid d)) = map task_id (tasks d)"
  by (simp add: update_task_row_def o_def if_distrib cong: if_cong)

lemma filter_key_nonempty:
  "filter (\<lambda>x. f x = k) xs \<noteq> [] \<longleftrightarrow> k \<in> set (map f xs)"
  by (auto simp: filter_empty_conv)

lemma update_task_row_keeps_ids:
  "filter (\<lambda>t. task_id t = tid) (tasks d) \<noteq> [] \<Longrightarrow>
   filter (\<lambda>t. task_id t = tid) (tasks (update_task_row ttl descr prio due b tid d)) \<noteq> []"
  unfolding filter_key_nonempty update_task_row_ids .

lemma updateTask_tasks:
  "tasks (fst (updateTask d u tid ttl descr prio due c tgs)) =
     (if fst (snd (updateTask d u tid ttl descr prio due c tgs)) = 200
      then map (\<lambda>t. if task_id t = tid
                     then t\<lparr>task_title := ttl, task_description := descr, task_priority := prio,
                            task_due_date := due,
                            task_completed := (updateTask_completed c)\<rparr>
                     else t) (tasks d)
      else tasks d)"
proof (cases "filter (\<lambda>t. task_id t = tid) (tasks d)")
  case Nil
  then show ?thesis by (simp add: updateTask_def)
next
  case (Cons T rest)
  show ?thesis
  proof (cases "checkListAccess d (user_id u) (task_list_id T)")
    case None
    with Cons show ?thesis by (simp add: updateTask_def)
  next
    case (Some r)
    show ?thesis
    proof (cases "updateTask_body tid ttl descr prio due c tgs d")
      case (Inl e)
      with Cons Some show ?thesis by (simp add: updateTask_def internal_error_def)
    next
      case (Inr d')
      from updateTask_body_tasks[OF Inr]
      have t: "tasks d' = tasks (update_task_row ttl descr prio due
                  (updateTask_completed c) tid d)" by simp
      have "filter (\<lambda>t. task_id t = tid) (tasks d') \<noteq> []"
        unfolding t using Cons by (intro update_task_row_keeps_ids) simp
      then obtain row rows where "task_with_tags d' tid = row # rows"
        using task_with_tags_nonempty[of tid d'] by (cases "task_with_tags d' tid") auto
      with Cons Some Inr t show ?thesis
        by (simp add: updateTask_def update_task_row_def)
    qed
  qed
qed

lemma updateTask_subtasks:
  "subtasks (fst (updateTask d u tid ttl descr prio due c tgs)) = subtasks d"
  by (auto simp: updateTask_def dest: updateTask_body_tasks
        split: list.splits option.splits sum.splits)

lemma toggleTask_subtasks: "subtasks (fst (toggleTask d u tid)) = subtasks d"
  by (simp add: toggleTask_def set_task_completed_def Let_def split: list.splits option.splits)

lemma deleteTask_writes:
  "fst (deleteTask d u tid) =
     (if fst (snd (deleteTask d u tid)) = 200
      then d\<lparr>tasks := filter (\<lambda>t. task_id t \<noteq> tid) (tasks d),
             subtasks := filter (\<lambda>s. st_task_id s \<noteq> tid) (subtasks d),
             task_tags := filter (\<lambda>r. tt_task_id r \<noteq> tid) (task_tags d)\<rparr>
      else d)"
  by (simp add: deleteTask_def delete_task_def err_def split: list.splits option.splits)

lemma createSubtask_tasks: "tasks (fst (createSubtask d u tid ttl)) = tasks d"
  by (auto simp: createSubtask_def insert_subtask_def Let_def
        split: list.splits option.splits sum.splits if_splits)

lemma updateSubtask_tasks: "tasks (fst (updateSubtask d u sid ttl c)) = tasks d"
  by (simp add: updateSubtask_def update_subtask_row_def Let_def
        split: list.splits option.splits prod.splits)

lemma toggleSubtask_tasks: "tasks (fst (toggleSubtask d u sid)) = tasks d"
  by (simp add: toggleSubtask_def set_subtask_completed_def Let_def
        split: list.splits option.splits prod.splits)

lemma deleteSubtask_tasks: "tasks (fst (deleteSubtask d u sid)) = tasks d"
  by (simp add: deleteSubtask_def delete_subtask_def
        split: list.splits option.splits prod.splits)

section \<open>The completed field\<close>

text \<open>
  C7. The claim asks that an updateTask call whose body leaves \<open>completed\<close> out keeps
  the task's \<open>completed\<close> value. The handler writes
  \<^verbatim>\<open>completed !== undefined ? completed : false\<close>: in the small store Bob renames the
  completed task with a body that has no \<open>completed\<close>, the call answers 200 and the task
  is pending. The sibling updateSubtask, given the same kind of body for the completed
  subtask, answers 200 and keeps its \<open>completed\<close>.
\<close>

theorem updateTask_omitted_completed_resets:
  "tasks groceries = [milk] \<and> task_completed milk = Some True
   \<and> fst (snd (updateTask groceries bob 1 ''Buy oat milk'' None None None CUndefined None)) = 200
   \<and> tasks (fst (updateTask groceries bob 1 ''Buy oat milk'' None None None CUndefined None)) =
       [milk\<lparr>task_title := ''Buy oat milk'', task_completed := Some False\<rparr>]
   \<and> subtasks groceries = [fridge] \<and> st_completed fridge = Some True
   \<and> fst (snd (updateSubtask groceries bob 1 ''Look in the fridge'' CUndefined)) = 200
   \<and> subtasks (fst (updateSubtask groceries bob 1 ''Look in the fridge'' CUndefined)) =
       [fridge\<lparr>st_title := ''Look in the fridge''\<rparr>]"
proof -
  have a: "tasks groceries = [milk]" "subtasks groceries = [fridge]"
    by (simp_all add: groceries_def)
  have b: "task_completed milk = Some True" "st_completed fridge = Some True"
    by (simp_all add: milk_def fridge_def)
  have c: "updateTask groceries bob 1 ''Buy oat milk'' None None None CUndefined None =
      (groceries\<lparr>tasks := [milk\<lparr>task_title := ''Buy oat milk'', task_completed := Some False\<rparr>]\<rparr>,
       (200, JObj [(''message'', JStr ''Task updated successfully''),
          (''task'', JObj (task_fields (milk\<lparr>task_title := ''Buy oat milk'', task_completed := Some False\<rparr>)
                             @ [(''tags'', JArr [])]))]))"
    by (simp add: ex_defs updateTask_def updateTask_body_def updateTask_completed_def
          update_task_row_def checkListAccess_def left_join_member_def task_with_tags_def
          tags_json_def)
  have e: "updateSubtask groceries bob 1 ''Look in the fridge'' CUndefined =
      (groceries\<lparr>subtasks := [fridge\<lparr>st_title := ''Look in the fridge''\<rparr>]\<rparr>,
       (200, JObj [(''message'', JStr ''Subtask updated successfully''),
          (''subtask'', subtask_json (fridge\<lparr>st_title := ''Look in the fridge''\<rparr>))]))"
    by (simp add: ex_defs updateSubtask_def subtask_with_list_def updateSubtask_completed_def
          update_subtask_row_def checkListAccess_def left_join_member_def)
  show ?thesis unfolding c e using a b by simp
qed

text \<open>
  The other half of C7 holds of the handlers: what updateTask writes into the tasks
  table; that no subtask operation changes the tasks table; that updateTask and
  toggleTask do not change the subtasks table; and what deleteTask leaves, the rows of
  the other tasks as they were.
\<close>

lemma task_subtask_frames:
  "tasks (fst (updateTask d u tid ttl descr prio due c tgs)) =
     (if fst (snd (updateTask d u tid ttl descr prio due c tgs)) = 200
      then map (\<lambda>t. if task_id t = tid
                     then t\<lparr>task_title := ttl, task_description := descr, task_priority := prio,
                            task_due_date := due,
                            task_completed := (updateTask_completed c)\<rparr>
                     else t) (tasks d)
      else tasks d)
   \<and> tasks (fst (createSubtask d u tid ttl)) = tasks d
   \<and> tasks (fst (updateSubtask d u sid ttl sc)) = tasks d
   \<and> tasks (fst (toggleSubtask d u sid)) = tasks d
   \<and> tasks (fst (deleteSubtask d u sid)) = tasks d
   \<and> subtasks (fst (updateTask d u tid ttl descr prio due c tgs)) = subtasks d
   \<and> subtasks (fst (toggleTask d u tid)) = subtasks d
   \<and> fst (deleteTask d u tid) =
       (if fst (snd (deleteTask d u tid)) = 200
        then d\<lparr>tasks := filter (\<lambda>t. task_id t \<noteq> tid) (tasks d),
               subtasks := filter (\<lambda>s. st_task_id s \<noteq> tid) (subtasks d),
               task_tags := filter (\<lambda>r. tt_task_id r \<noteq> tid) (task_tags d)\<rparr>
        else d)"
  using updateTask_tasks[of d u tid ttl descr prio due c tgs]
    createSubtask_tasks[of d u tid ttl] updateSubtask_tasks[of d u sid ttl sc]
    toggleSubtask_tasks[of d u sid] deleteSubtask_tasks[of d u sid]
    updateTask_subtasks[of d u tid ttl descr prio due c tgs]
    toggleTask_subtasks[of d u tid] deleteTask_writes[of d u tid]
  by blast

section \<open>An update that leaves completed out\<close>

lemma checkListAccess_subtasks [simp]:
  "checkListAccess (d\<lparr>subtasks := ss\<rparr>) uid lid = checkListAccess d uid lid"
  by (simp add: checkListAccess_def left_join_member_def)

lemma updateSubtask_omitted:
  assumes "distinct (map subtask_id (subtasks d))" and "S \<in> set (subtasks d)"
    and "filter (\<lambda>t. task_id t = st_task_id S) (tasks d) = P # ps"
    and "checkListAccess d (user_id u) (task_list_id P) \<noteq> None"
  shows "fst (updateSubtask d u (subtask_id S) ttl CUndefined) =
           d\<lparr>subtasks := map (\<lambda>s. if s = S then S\<lparr>st_title := ttl\<rparr> else s) (subtasks d)\<rparr>"
    and "fst (snd (updateSubtask d u (subtask_id S) ttl CUndefined)) = 200"
proof -
  have one: "filter (\<lambda>s. subtask_id s = subtask_id S) (subtasks d) = [S]"
    using assms(1,2) by (rule filter_key_singleton)
  have rows: "subtask_with_list d (subtask_id S) =
      (S, task_list_id P) # map (\<lambda>t. (S, task_list_id t)) ps"
    by (simp add: subtask_with_list_def one assms(3))
  have m: "map (\<lambda>s. if subtask_id s = subtask_id S
                     then s\<lparr>st_title := ttl, st_completed := st_completed S\<rparr> else s) (subtasks d)
         = map (\<lambda>s. if s = S then S\<lparr>st_title := ttl\<rparr> else s) (subtasks d)"
    using pk_unique[OF assms(1,2)] by (intro map_cong) auto
  show "fst (updateSubtask d u (subtask_id S) ttl CUndefined) =
           d\<lparr>subtasks := map (\<lambda>s. if s = S then S\<lparr>st_title := ttl\<rparr> else s) (subtasks d)\<rparr>"
    using assms(4)
    by (auto simp: updateSubtask_def rows update_subtask_row_def updateSubtask_completed_def m Let_def)
  show "fst (snd (updateSubtask d u (subtask_id S) ttl CUndefined)) = 200"
    using assms(4) by (auto simp: updateSubtask_def rows Let_def)
qed

lemma updateTask_omitted:
  assumes "distinct (map task_id (tasks d))" and "T \<in> set (tasks d)"
    and "checkListAccess d (user_id u) (task_list_id T) \<noteq> None"
  shows "fst (updateTask d u (task_id T) ttl descr prio due CUndefined None) =
           d\<lparr>tasks := map (\<lambda>t. if t = T
                                then T\<lparr>task_title := ttl, task_description := descr,
                                       task_priority := prio, task_due_date := due,
                                       task_completed := Some False\<rparr>
                                else t) (tasks d)\<rparr>"
    and "fst (snd (updateTask d u (task_id T) ttl descr prio due CUndefined None)) = 200"
proof -
  let ?d1 = "update_task_row ttl descr prio due (Some False) (task_id T) d"
  have one: "filter (\<lambda>t. task_id t = task_id T) (tasks d) = [T]"
    using assms(1,2) by (rule filter_key_singleton)
  have body: "updateTask_body (task_id T) ttl descr prio due CUndefined None d = Inr ?d1"
    by (simp add: updateTask_body_def updateTask_completed_def)
  have "filter (\<lambda>t. task_id t = task_id T) (tasks ?d1) \<noteq> []"
    by (rule update_task_row_keeps_ids) (simp add: one)
  then obtain row rows where fin: "task_with_tags ?d1 (task_id T) = row # rows"
    using task_with_tags_nonempty[of "task_id T" ?d1] by (cases "task_with_tags ?d1 (task_id T)") auto
  have m: "map (\<lambda>t. if task_id t = task_id T
                     then t\<lparr>task_title := ttl, task_description := descr, task_priority := prio,
                            task_due_date := due, task_completed := Some False\<rparr> else t) (tasks d)
         = map (\<lambda>t. if t = T
                     then T\<lparr>task_title := ttl, task_description := descr, task_priority := prio,
                            task_due_date := due, task_completed := Some False\<rparr> else t) (tasks d)"
    using pk_unique[OF assms(1,2)] by (intro map_cong) auto
  have d1: "?d1 = d\<lparr>tasks := map (\<lambda>t. if t = T
                     then T\<lparr>task_title := ttl, task_description := descr, task_priority := prio,
                            task_due_date := due, task_completed := Some False\<rparr> else t) (tasks d)\<rparr>"
    by (simp add: update_task_row_def m)
  show "fst (updateTask d u (task_id T) ttl descr prio due CUndefined None) =
           d\<lparr>tasks := map (\<lambda>t. if t = T
                                then T\<lparr>task_title := ttl, task_description := descr,
                                       task_priority := prio, task_due_date := due,
                                       task_completed := Some False\<rparr>
                                else t) (tasks d)\<rparr>"
    using assms(3) fin d1 by (auto simp: updateTask_def one body)
  show "fst (snd (updateTask d u (task_id T) ttl descr prio due CUndefined None)) = 200"
    using assms(3) fin by (auto simp: updateTask_def one body)
qed

text \<open>
  C10. With \<open>completed\<close> left out of the body, updateSubtask answers 200 and rewrites the
  subtask with its stored \<open>completed\<close> value, be it true, false or NULL (only the title
  changes), while updateTask answers 200 and writes false into \<open>completed\<close> of the task,
  whatever it held. Both under the primary keys
  of the two tables, for a subtask \<open>S\<close> and a task \<open>T\<close> on lists the principal may
  access.
\<close>

theorem update_omitted_completed:
  assumes "distinct (map subtask_id (subtasks d))" and "S \<in> set (subtasks d)"
    and "filter (\<lambda>t. task_id t = st_task_id S) (tasks d) = P # ps"
    and "checkListAccess d (user_id u) (task_list_id P) \<noteq> None"
    and "distinct (map task_id (tasks d))" and "T \<in> set (tasks d)"
    and "checkListAccess d (user_id u) (task_list_id T) \<noteq> None"
  shows "fst (snd (updateSubtask d u (subtask_id S) ttl CUndefined)) = 200
       \<and> fst (updateSubtask d u (subtask_id S) ttl CUndefined) =
           d\<lparr>subtasks := map (\<lambda>s. if s = S then S\<lparr>st_title := ttl\<rparr> else s) (subtasks d)\<rparr>
       \<and> fst (snd (updateTask d u (task_id T) ttl descr prio due CUndefined None)) = 200
       \<and> fst (updateTask d u (task_id T) ttl descr prio due CUndefined None) =
           d\<lparr>tasks := map (\<lambda>t. if t = T
                                then T\<lparr>task_title := ttl, task_description := descr,
                                       task_priority := prio, task_due_date := due,
                                       task_completed := Some False\<rparr>
                                else t) (tasks d)\<rparr>"
  using updateSubtask_omitted[OF assms(1-4)] updateTask_omitted[OF assms(5-7)] by blast

theorem update_omitted_completed_witness:
  "distinct (map subtask_id (subtasks groceries)) \<and> fridge \<in> set (subtasks groceries)
   \<and> filter (\<lambda>t. task_id t = st_task_id fridge) (tasks groceries) = milk # []
   \<and> checkListAccess groceries (user_id bob) (task_list_id milk) \<noteq> None
   \<and> distinct (map task_id (tasks groceries)) \<and> milk \<in> set (tasks groceries)
   \<and> st_completed fridge = Some True \<and> task_completed milk = Some True
   \<and> subtasks (fst (updateSubtask groceries bob (subtask_id fridge) ''Look'' CUndefined)) =
       [fridge\<lparr>st_title := ''Look''\<rparr>]
   \<and> tasks (fst (updateTask groceries bob (task_id milk) ''Look'' None None None CUndefined None)) =
       [milk\<lparr>task_title := ''Look'', task_completed := Some False\<rparr>]"
proof -
  have h1: "distinct (map subtask_id (subtasks groceries))" by (simp add: groceries_def)
  have h2: "fridge \<in> set (subtasks groceries)" by (simp add: groceries_def)
  have h3: "filter (\<lambda>t. task_id t = st_task_id fridge) (tasks groceries) = milk # []"
    by (simp add: groceries_def milk_def fridge_def)
  have h4: "checkListAccess groceries (user_id bob) (task_list_id milk) \<noteq> None"
    by (simp add: ex_defs checkListAccess_def left_join_member_def)
  have h5: "distinct (map task_id (tasks groceries))" by (simp add: groceries_def)
  have h6: "milk \<in> set (tasks groceries)" by (simp add: groceries_def)
  have c: "st_completed fridge = Some True" "task_completed milk = Some True"
    by (simp_all add: milk_def fridge_def)
  have g: "tasks groceries = [milk]" "subtasks groceries = [fridge]"
    by (simp_all add: groceries_def)
  have r: "milk\<lparr>task_title := ''Look'', task_description := None, task_priority := None,
                task_due_date := None, task_completed := Some False\<rparr>
           = milk\<lparr>task_title := ''Look'', task_completed := Some False\<rparr>"
    by (simp add: milk_def)
  from update_omitted_completed[OF h1 h2 h3 h4 h5 h6 h4, of "''Look''" None None None]
  have "subtasks (fst (updateSubtask groceries bob (subtask_id fridge) ''Look'' CUndefined)) =
          [fridge\<lparr>st_title := ''Look''\<rparr>]"
    and "tasks (fst (updateTask groceries bob (task_id milk) ''Look'' None None None CUndefined None)) =
          [milk\<lparr>task_title := ''Look'', task_completed := Some False\<rparr>]"
    by (simp_all add: g r)
  with h1 h2 h3 h4 h5 h6 c show ?thesis by blast
qed

section \<open>Not found, or access denied\<close>

text \<open>
  The list handler has one answer for a list that is missing and a list the principal
  has no role on: its single query gives no row in both cases. The task handlers look
  the task up first and check the list second, and word the two answers differently.
\<close>

lemma getTask_missing:
  "filter (\<lambda>t. task_id t = tid) (tasks d) = [] \<Longrightarrow> getTask d u tid = (404, err ''Task not found'')"
  by (simp add: getTask_def)

lemma getTask_denied:
  "filter (\<lambda>t. task_id t = tid) (tasks d) = T # ts \<Longrightarrow>
   checkListAccess d (user_id u) (task_list_id T) = None \<Longrightarrow>
   getTask d u tid = (404, err ''Task not found or access denied'')"
  by (simp add: getTask_def)

lemma getList_missing_or_denied:
  "accessCheck d (user_id u) lid = [] \<Longrightarrow>
   getList d u lid = (404, err ''List not found or access denied'')"
  by (simp add: getList_def)

text \<open>
  C3. The claim asks for one answer whether the task is missing or exists on a list the
  principal has no role on. In the small store Carol has no role on the list of task 1,
  and no task has id 7: GET /tasks/7 answers 404 \<open>Task not found\<close>, GET /tasks/1 answers
  404 \<open>Task not found or access denied\<close>, so the two bodies tell Carol that task 1
  exists.
\<close>

theorem getTask_existence_leak:
  "filter (\<lambda>t. task_id t = 7) (tasks groceries) = []
   \<and> filter (\<lambda>t. task_id t = 1) (tasks groceries) = [milk]
   \<and> accessCheck groceries (user_id carol) (task_list_id milk) = []
   \<and> getTask groceries carol 7 = (404, JObj [(''error'', JStr ''Task not found'')])
   \<and> getTask groceries carol 1 = (404, JObj [(''error'', JStr ''Task not found or access denied'')])
   \<and> getTask groceries carol 7 \<noteq> getTask groceries carol 1"
proof -
  have a: "filter (\<lambda>t. task_id t = 7) (tasks groceries) = []"
    by (simp add: groceries_def milk_def)
  have b: "filter (\<lambda>t. task_id t = 1) (tasks groceries) = [milk]"
    by (simp add: groceries_def milk_def)
  have c: "checkListAccess groceries (user_id carol) (task_list_id milk) = None"
    by (simp add: ex_defs checkListAccess_def left_join_member_def)
  have r: "accessCheck groceries (user_id carol) (task_list_id milk) = []"
    by (simp add: ex_defs accessCheck_def left_join_member_def)
  show ?thesis
    using a b r getTask_missing[OF a, of carol] getTask_denied[OF b c]
    by (simp add: err_def)
qed

section \<open>Tag reconciliation\<close>

text \<open>
  The tag loop of updateTask inserts every link with a plain INSERT. Two names that are
  equal after trim and lower-casing resolve to the same tag row, so the second link
  breaks the primary key of task_tags, the transaction is rolled back and the request
  answers 500.
\<close>

lemma upsert_tag_found:
  "upsert_tag k d = Inr (g, d1) \<Longrightarrow>
   \<exists>x rest. filter (\<lambda>x. tag_name x = k) (tags d1) = x # rest \<and> tag_id x = g"
  by (auto simp: upsert_tag_def filter_empty_conv split: list.splits if_splits)

lemma upsert_tag_again:
  "filter (\<lambda>x. tag_name x = k) (tags d) = x # rest \<Longrightarrow> upsert_tag k d = Inr (tag_id x, d)"
  by (simp add: upsert_tag_def)

lemma insert_task_tag_linked:
  "insert_task_tag tid g d = Inr d' \<Longrightarrow>
   tags d' = tags d \<and> (\<exists>r \<in> set (task_tags d'). tt_task_id r = tid \<and> tt_tag_id r = g)"
  by (auto simp: insert_task_tag_def split: if_splits)

lemma insert_task_tag_twice:
  "\<exists>r \<in> set (task_tags d). tt_task_id r = tid \<and> tt_tag_id r = g \<Longrightarrow>
   insert_task_tag tid g d = Inl UniqueViolation"
  by (simp add: insert_task_tag_def)

lemma update_tags_duplicate:
  assumes "n1 \<noteq> []" "trim n1 \<noteq> []" "n2 \<noteq> []" "trim n2 \<noteq> []"
    and "toLowerCase (trim n1) = toLowerCase (trim n2)"
  shows "\<exists>e. update_tags tid [n1, n2] d = Inl e"
proof (cases "upsert_tag (toLowerCase (trim n1)) d")
  case (Inl e)
  with assms show ?thesis by simp
next
  case (Inr p)
  obtain g d1 where p: "p = (g, d1)" by (cases p)
  show ?thesis
  proof (cases "insert_task_tag tid g d1")
    case (Inl e)
    with Inr p assms show ?thesis by simp
  next
    case r2: (Inr d2)
    from upsert_tag_found[OF Inr[unfolded p]] obtain x rest where
      f: "filter (\<lambda>x. tag_name x = toLowerCase (trim n1)) (tags d1) = x # rest" and x: "tag_id x = g"
      by blast
    from insert_task_tag_linked[OF r2] have
      t: "tags d2 = tags d1" and l: "\<exists>r \<in> set (task_tags d2). tt_task_id r = tid \<and> tt_tag_id r = g"
      by auto
    have "upsert_tag (toLowerCase (trim n2)) d2 = Inr (g, d2)"
      using upsert_tag_again[of "toLowerCase (trim n1)" d2 x rest] f t x assms(5) by simp
    moreover have "insert_task_tag tid g d2 = Inl UniqueViolation"
      using l by (rule insert_task_tag_twice)
    ultimately show ?thesis using Inr p r2 assms by simp
  qed
qed

lemma updateTask_duplicate_tags:
  assumes "filter (\<lambda>t. task_id t = tid) (tasks d) = T # ts"
    and "checkListAccess d (user_id u) (task_list_id T) \<noteq> None"
    and "n1 \<noteq> []" "trim n1 \<noteq> []" "n2 \<noteq> []" "trim n2 \<noteq> []"
    and "toLowerCase (trim n1) = toLowerCase (trim n2)"
  shows "updateTask d u tid ttl descr prio due c (Some [n1, n2]) = (d, (500, err ''Internal server error''))"
proof -
  obtain e where "updateTask_body tid ttl descr prio due c (Some [n1, n2]) d = Inl e"
    using update_tags_duplicate[OF assms(3-7)] by (auto simp: updateTask_body_def Let_def)
  with assms(1,2) show ?thesis
    by (auto simp: updateTask_def internal_error_def)
qed

text \<open>
  C6. The claim asks that the tag list \<open>[work, work]\<close> succeeds on createTask and on
  updateTask and leaves one tag row and one link. On the small store updateTask with
  that list answers 500 and leaves the store as it was, while createTask (whose link
  insert has ON CONFLICT DO NOTHING) answers 201 with one tag row named work and one
  link to it.
\<close>

theorem updateTask_duplicate_tags_rejected:
  "updateTask groceries bob 1 ''Buy milk'' None None None (CBool True) (Some [''work'', ''work''])
     = (groceries, (500, JObj [(''error'', JStr ''Internal server error'')]))
   \<and> fst (snd (createTask groceries bob 1 ''Buy bread'' None None None (Some [''work'', ''work'']))) = 201
   \<and> tags (fst (createTask groceries bob 1 ''Buy bread'' None None None (Some [''work'', ''work''])))
       = [\<lparr>tag_id = 1, tag_name = ''work''\<rparr>]
   \<and> task_tags (fst (createTask groceries bob 1 ''Buy bread'' None None None (Some [''work'', ''work''])))
       = [\<lparr>tt_task_id = 2, tt_tag_id = 1\<rparr>]"
proof -
  have a: "filter (\<lambda>t. task_id t = 1) (tasks groceries) = milk # []"
    by (simp add: groceries_def milk_def)
  have b: "checkListAccess groceries (user_id bob) (task_list_id milk) \<noteq> None"
    by (simp add: ex_defs checkListAccess_def left_join_member_def)
  have w: "trim ''work'' \<noteq> []" by (simp add: trim_def is_space_def)
  have u: "updateTask groceries bob 1 ''Buy milk'' None None None (CBool True) (Some [''work'', ''work''])
     = (groceries, (500, JObj [(''error'', JStr ''Internal server error'')]))"
    using updateTask_duplicate_tags[OF a b _ w _ w]
    by (simp add: err_def)
  have n: "toLowerCase (trim ''work'') = ''work''"
    by (simp add: toLowerCase_def toLowerCase_char_def trim_def is_space_def)
  let ?bread = "\<lparr>task_id = 2, task_list_id = 1, task_title = ''Buy bread'', task_description = None,
              task_priority = None, task_due_date = None, task_completed = Some False\<rparr>"
  let ?d' = "groceries\<lparr>tasks := [milk, ?bread],
              tasks_seq := 3, tags := [\<lparr>tag_id = 1, tag_name = ''work''\<rparr>], tags_seq := 2,
              task_tags := [\<lparr>tt_task_id = 2, tt_tag_id = 1\<rparr>]\<rparr>"
  obtain r where acc: "checkListAccess groceries (user_id bob) 1 = Some r"
    by (simp add: ex_defs checkListAccess_def left_join_member_def)
  have body: "createTask_body 1 ''Buy bread'' None None None (Some [''work'', ''work'']) groceries
     = Inr (?bread, ?d')"
    by (simp add: createTask_body_def insert_task_def n upsert_tag_def Let_def
          insert_task_tag_do_nothing_def insert_task_tag_def groceries_def milk_def)
  obtain row rows where fin: "task_with_tags ?d' (task_id ?bread) = row # rows"
    by (simp add: task_with_tags_def milk_def)
  have cr: "createTask groceries bob 1 ''Buy bread'' None None None (Some [''work'', ''work''])
     = (?d', (201, JObj [(''message'', JStr ''Task created successfully''), (''task'', row)]))"
    using acc body fin by (simp add: createTask_def)
  show ?thesis unfolding cr using u by simp
qed

section \<open>The access queries\<close>

text \<open>When the queries behind the permission checks give no row.\<close>

lemma first_row_None: "(case xs of [] \<Rightarrow> None | r # _ \<Rightarrow> Some r) = None \<longleftrightarrow> xs = []"
  by (cases xs) simp_all

lemma ball_left_join_member:
  "(\<forall>lm \<in> set (left_join_member d l uid). P lm) \<longleftrightarrow>
     (if \<exists>m \<in> set (list_members d). m_list_id m = list_id l \<and> m_user_id m = uid
      then \<forall>m \<in> set (list_members d). m_list_id m = list_id l \<and> m_user_id m = uid \<longrightarrow> P (Some m)
      else P None)"
proof (cases "filter (\<lambda>m. m_list_id m = list_id l \<and> m_user_id m = uid) (list_members d)")
  case Nil
  then have no: "\<not> (\<exists>m \<in> set (list_members d). m_list_id m = list_id l \<and> m_user_id m = uid)"
    by (simp add: filter_empty_conv)
  have lj: "left_join_member d l uid = [None]"
    using Nil by (simp add: left_join_member_def)
  show ?thesis unfolding lj if_not_P[OF no] by simp
next
  case (Cons a as)
  then have "a \<in> set (filter (\<lambda>m. m_list_id m = list_id l \<and> m_user_id m = uid) (list_members d))"
    by simp
  then have ne: "\<exists>m \<in> set (list_members d). m_list_id m = list_id l \<and> m_user_id m = uid"
    by auto
  have "left_join_member d l uid =
      map Some (filter (\<lambda>m. m_list_id m = list_id l \<and> m_user_id m = uid) (list_members d))"
    using Cons by (simp add: left_join_member_def)
  then have "(\<forall>lm \<in> set (left_join_member d l uid). P lm) \<longleftrightarrow>
      (\<forall>m \<in> set (list_members d). m_list_id m = list_id l \<and> m_user_id m = uid \<longrightarrow> P (Some m))"
    by auto
  then show ?thesis unfolding if_P[OF ne] .
qed

lemma checkListPermission_admin_None:
  "checkListPermission d uid lid False = None \<longleftrightarrow>
   \<not> (\<exists>l \<in> set (lists d). list_id l = lid \<and>
        (owner_id l = uid \<or>
         (\<exists>m \<in> set (list_members d). m_list_id m = lid \<and> m_user_id m = uid \<and> m_role m = ''admin'')))"
proof -
  have "checkListPermission d uid lid False = None \<longleftrightarrow>
      (\<forall>l \<in> set (lists d). list_id l = lid \<longrightarrow>
         (\<forall>lm \<in> set (left_join_member d l uid).
            \<not> (owner_id l = uid \<or> map_option m_role lm = Some ''admin'')))"
    unfolding checkListPermission_def Let_def first_row_None by auto
  also have "\<dots> \<longleftrightarrow> \<not> (\<exists>l \<in> set (lists d). list_id l = lid \<and>
        (owner_id l = uid \<or>
         (\<exists>m \<in> set (list_members d). m_list_id m = lid \<and> m_user_id m = uid \<and> m_role m = ''admin'')))"
    unfolding ball_left_join_member by auto
  finally show ?thesis .
qed

lemma checkListPermission_owner_None:
  "checkListPermission d uid lid True = None \<longleftrightarrow>
   \<not> (\<exists>l \<in> set (lists d). list_id l = lid \<and> owner_id l = uid)"
  unfolding checkListPermission_def Let_def first_row_None by auto

lemma checkListAccess_None:
  "checkListAccess d uid lid = None \<longleftrightarrow>
   \<not> (\<exists>l \<in> set (lists d). list_id l = lid \<and>
        (owner_id l = uid \<or>
         (\<exists>m \<in> set (list_members d). m_list_id m = lid \<and> m_user_id m = uid)))"
proof -
  have "checkListAccess d uid lid = None \<longleftrightarrow>
      (\<forall>l \<in> set (lists d). list_id l = lid \<longrightarrow>
         (\<forall>lm \<in> set (left_join_member d l uid).
            \<not> (owner_id l = uid \<or> map_option m_user_id lm = Some uid)))"
    unfolding checkListAccess_def first_row_None by auto
  also have "\<dots> \<longleftrightarrow> \<not> (\<exists>l \<in> set (lists d). list_id l = lid \<and>
        (owner_id l = uid \<or>
         (\<exists>m \<in> set (list_members d). m_list_id m = lid \<and> m_user_id m = uid)))"
    unfolding ball_left_join_member by auto
  finally show ?thesis .
qed

section \<open>The owner is not a member\<close>

text \<open>
  Every statement the membership handlers run keeps the invariant together with the
  foreign key of list_members: a new list has a fresh id, so no membership row points at
  it; the addMember handler refuses the owner; the transfer deletes the new owner's row
  before it changes the owner, and the old owner's new row is not the new owner's.
\<close>

lemma owner_rows_empty:
  "owner_rows d lid uid = [] \<longleftrightarrow> \<not> (\<exists>l \<in> set (lists d). list_id l = lid \<and> owner_id l = uid)"
  by (auto simp: owner_rows_def filter_empty_conv)

lemma member_roles_empty:
  "member_roles d lid uid = [] \<longleftrightarrow>
   \<not> (\<exists>m \<in> set (list_members d). m_list_id m = lid \<and> m_user_id m = uid)"
  by (auto simp: member_roles_def filter_empty_conv)

lemma insert_list_inv:
  assumes "membership_inv d" and "insert_list name owner d = Inr (l, d')"
  shows "membership_inv d'"
proof -
  from assms(2) have fresh: "lists_seq d \<notin> list_id ` set (lists d)"
    and l: "lists d' = lists d @ [\<lparr>list_id = lists_seq d, list_name = name, owner_id = owner\<rparr>]"
    and m: "list_members d' = list_members d"
    by (auto simp: insert_list_def Let_def split: if_splits)
  have none: "\<And>x. x \<in> set (list_members d) \<Longrightarrow> m_list_id x \<noteq> lists_seq d"
    using assms(1) fresh unfolding membership_inv_def members_reference_lists_def by metis
  have "owner_not_member d'"
    using assms(1) none unfolding membership_inv_def owner_not_member_def l m by auto
  moreover have "members_reference_lists d'"
    using assms(1) unfolding membership_inv_def members_reference_lists_def l m by auto
  ultimately show ?thesis by (simp add: membership_inv_def)
qed

lemma createList_inv: "membership_inv d \<Longrightarrow> membership_inv (fst (createList d u name))"
  by (auto simp: createList_def dest: insert_list_inv split: sum.splits)

lemma insert_member_inv:
  assumes "membership_inv d" and "owner_rows d lid uid = []"
    and "insert_member lid uid role d = Inr d'"
  shows "membership_inv d'"
proof -
  from assms(3) have ex: "lid \<in> list_id ` set (lists d)"
    and m: "list_members d' = list_members d @ [\<lparr>m_list_id = lid, m_user_id = uid, m_role = role\<rparr>]"
    and l: "lists d' = lists d"
    by (auto simp: insert_member_def split: if_splits)
  have "owner_not_member d'"
    using assms(1) assms(2)[unfolded owner_rows_empty]
    unfolding membership_inv_def owner_not_member_def l m by auto
  moreover have "members_reference_lists d'"
    using assms(1) ex unfolding membership_inv_def members_reference_lists_def l m by auto
  ultimately show ?thesis by (simp add: membership_inv_def)
qed

lemma addMember_handler_inv:
  "membership_inv d \<Longrightarrow> membership_inv (fst (addMember_handler d u lid email role))"
  by (auto simp: addMember_handler_def Let_def dest: insert_member_inv
        split: option.splits list.splits sum.splits)

lemma addMember_inv:
  "membership_inv d \<Longrightarrow> membership_inv (fst (addMember_validated d u lid email role))"
  by (simp add: addMember_validated_def addMember_handler_inv)

lemma update_member_inv: "membership_inv d \<Longrightarrow> membership_inv (update_member role lid uid d)"
  by (auto simp: membership_inv_def owner_not_member_def members_reference_lists_def
        update_member_def)

lemma updateMemberRole_inv:
  "membership_inv d \<Longrightarrow> membership_inv (fst (updateMemberRole_handler d u lid uid role))"
  by (simp add: updateMemberRole_handler_def update_member_inv Let_def split: option.splits)

lemma delete_member_inv: "membership_inv d \<Longrightarrow> membership_inv (fst (delete_member lid uid d))"
  by (auto simp: membership_inv_def owner_not_member_def members_reference_lists_def
        delete_member_def)

lemma removeMember_inv:
  "membership_inv d \<Longrightarrow> membership_inv (fst (removeMember_handler d u lid uid))"
  using delete_member_inv[of d lid uid]
  by (auto simp: removeMember_handler_def split: option.splits prod.splits if_splits)

lemma leaveList_inv: "membership_inv d \<Longrightarrow> membership_inv (fst (leaveList_handler d u lid))"
  using delete_member_inv[of d lid "user_id u"]
  by (auto simp: leaveList_handler_def split: option.splits prod.splits if_splits)

lemma transfer_body_inv:
  assumes "membership_inv d" and "new \<noteq> old"
    and "transfer_body fault lid new old d = Inr d'"
  shows "membership_inv d'"
proof -
  from assms(3) obtain d2 where
    ins: "insert_member lid old ''admin'' (fst (delete_member lid new d)) = Inr d2"
    and upd: "update_owner new lid d2 = Inr d'"
    by (auto simp: transfer_body_def stmt_def split: if_splits sum.splits)
  from ins have m2: "list_members d2 =
      filter (\<lambda>m. \<not> (m_list_id m = lid \<and> m_user_id m = new)) (list_members d)
        @ [\<lparr>m_list_id = lid, m_user_id = old, m_role = ''admin''\<rparr>]"
    and l2: "lists d2 = lists d" and ex: "lid \<in> list_id ` set (lists d)"
    by (auto simp: insert_member_def delete_member_def split: if_splits)
  from upd have m3: "list_members d' = list_members d2"
    and l3: "lists d' = map (\<lambda>l. if list_id l = lid then l\<lparr>owner_id := new\<rparr> else l) (lists d2)"
    by (auto simp: update_owner_def split: if_splits)
  have onm: "\<And>l m. l \<in> set (lists d) \<Longrightarrow> m \<in> set (list_members d) \<Longrightarrow>
      m_list_id m = list_id l \<Longrightarrow> m_user_id m \<noteq> owner_id l"
    using assms(1) unfolding membership_inv_def owner_not_member_def by blast
  have fk: "\<And>m. m \<in> set (list_members d) \<Longrightarrow> m_list_id m \<in> list_id ` set (lists d)"
    using assms(1) unfolding membership_inv_def members_reference_lists_def by blast
  have "map list_id (lists d') = map list_id (lists d)"
    unfolding l3 l2 by (simp add: o_def if_distrib cong: if_cong)
  then have ids: "list_id ` set (lists d') = list_id ` set (lists d)"
    by (metis list.set_map)
  have "owner_not_member d'"
    unfolding owner_not_member_def
  proof (intro ballI notI)
    fix l m
    assume l: "l \<in> set (lists d')" and m: "m \<in> set (list_members d')"
      and c: "m_list_id m = list_id l \<and> m_user_id m = owner_id l"
    from l obtain l0 where l0: "l0 \<in> set (lists d)"
      and ll: "l = (if list_id l0 = lid then l0\<lparr>owner_id := new\<rparr> else l0)"
      unfolding l3 l2 by auto
    from m have mm: "(m \<in> set (list_members d) \<and> \<not> (m_list_id m = lid \<and> m_user_id m = new))
        \<or> m = \<lparr>m_list_id = lid, m_user_id = old, m_role = ''admin''\<rparr>"
      unfolding m3 m2 by auto
    show False
    proof (cases "list_id l0 = lid")
      case True
      with ll have "list_id l = lid" "owner_id l = new" by simp_all
      with c mm assms(2) show False by auto
    next
      case False
      with ll have e: "l = l0" by simp
      with c False mm have "m \<in> set (list_members d)" by auto
      with onm[OF l0 this] c e show False by simp
    qed
  qed
  moreover have "members_reference_lists d'"
    unfolding members_reference_lists_def ids
  proof
    fix m assume "m \<in> set (list_members d')"
    then have "m \<in> set (list_members d) \<or> m = \<lparr>m_list_id = lid, m_user_id = old, m_role = ''admin''\<rparr>"
      unfolding m3 m2 by auto
    with fk ex show "m_list_id m \<in> list_id ` set (lists d)" by auto
  qed
  ultimately show ?thesis by (simp add: membership_inv_def)
qed

lemma transferOwnership_inv:
  "membership_inv d \<Longrightarrow> membership_inv (fst (transferOwnership_handler fault d u lid email))"
  by (auto simp: transferOwnership_handler_def dest: transfer_body_inv
        split: option.splits list.splits sum.splits if_splits)

lemma apply_op_inv: "membership_inv d \<Longrightarrow> membership_inv (apply_op d x)"
  by (cases x)
    (simp_all add: createList_inv addMember_inv updateMemberRole_inv removeMember_inv
       leaveList_inv transferOwnership_inv)

lemma run_inv: "membership_inv d \<Longrightarrow> membership_inv (run d ops)"
  unfolding run_def by (induction ops arbitrary: d) (simp_all add: apply_op_inv)

text \<open>
  C4. From a store with no list and no membership row, every sequence of createList,
  addMember, updateMemberRole, removeMember, leaveList and transferOwnership calls (by
  any principals, with any arguments, the transfer with or without an injected fault)
  leaves a store in which no list has a membership row for its owner. The membership
  operations are taken at their handlers, which write all that the wired routes write
  and more.
\<close>

theorem owner_never_member:
  assumes "lists d0 = []" and "list_members d0 = []"
  shows "owner_not_member (run d0 ops)"
proof -
  have "membership_inv d0"
    using assms by (simp add: membership_inv_def owner_not_member_def members_reference_lists_def)
  then have "membership_inv (run d0 ops)" by (rule run_inv)
  then show ?thesis by (simp add: membership_inv_def)
qed

theorem owner_never_member_witness:
  "lists registered = [] \<and> list_members registered = []
   \<and> lists (run registered
        [CreateList alice ''Groceries'',
         AddMember alice 1 ''bob@example.com'' (Some ''member''),
         TransferOwnership None alice 1 (Some ''Bob@Example.com'')])
       = [\<lparr>list_id = 1, list_name = ''Groceries'', owner_id = 2\<rparr>]
   \<and> list_members (run registered
        [CreateList alice ''Groceries'',
         AddMember alice 1 ''bob@example.com'' (Some ''member''),
         TransferOwnership None alice 1 (Some ''Bob@Example.com'')])
       = [\<lparr>m_list_id = 1, m_user_id = 1, m_role = ''admin''\<rparr>]
   \<and> owner_not_member (run registered
        [CreateList alice ''Groceries'',
         AddMember alice 1 ''bob@example.com'' (Some ''member''),
         TransferOwnership None alice 1 (Some ''Bob@Example.com'')])"
proof -
  have a: "lists registered = []" and b: "list_members registered = []"
    by (simp_all add: registered_def)
  let ?d1 = "registered\<lparr>lists := [\<lparr>list_id = 1, list_name = ''Groceries'', owner_id = 1\<rparr>],
                lists_seq := 2\<rparr>"
  let ?d2 = "?d1\<lparr>list_members := [\<lparr>m_list_id = 1, m_user_id = 2, m_role = ''member''\<rparr>]\<rparr>"
  let ?d3 = "?d2\<lparr>list_members := [\<lparr>m_list_id = 1, m_user_id = 1, m_role = ''admin''\<rparr>],
                lists := [\<lparr>list_id = 1, list_name = ''Groceries'', owner_id = 2\<rparr>]\<rparr>"
  have s1: "fst (createList registered alice ''Groceries'') = ?d1"
    by (simp add: createList_def insert_list_def registered_def alice_def bob_def carol_def Let_def)
  have s2: "fst (addMember_validated ?d1 alice 1 ''bob@example.com'' (Some ''member'')) = ?d2"
    by (simp add: addMember_validated_def validateListMember_def addMember_handler_def
          checkListPermission_def left_join_member_def users_by_email_def owner_rows_def
          member_roles_def insert_member_def registered_def alice_def bob_def carol_def Let_def)
  have lc: "toLowerCase ''Bob@Example.com'' = ''bob@example.com''"
    by (simp add: toLowerCase_def toLowerCase_char_def)
  have s3: "fst (transferOwnership_handler None ?d2 alice 1 (Some ''Bob@Example.com'')) = ?d3"
    by (simp add: transferOwnership_handler_def lc checkListPermission_def users_by_email_def
          transfer_body_def stmt_def delete_member_def insert_member_def update_owner_def
          registered_def alice_def bob_def carol_def Let_def)
  have r: "run registered
        [CreateList alice ''Groceries'',
         AddMember alice 1 ''bob@example.com'' (Some ''member''),
         TransferOwnership None alice 1 (Some ''Bob@Example.com'')] = ?d3"
    using s1 s2 s3 by (simp add: run_def)
  have l: "lists ?d3 = [\<lparr>list_id = 1, list_name = ''Groceries'', owner_id = 2\<rparr>]"
    and m: "list_members ?d3 = [\<lparr>m_list_id = 1, m_user_id = 1, m_role = ''admin''\<rparr>]"
    by simp_all
  from owner_never_member[OF a b] have "owner_not_member (run registered
        [CreateList alice ''Groceries'',
         AddMember alice 1 ''bob@example.com'' (Some ''member''),
         TransferOwnership None alice 1 (Some ''Bob@Example.com'')])" .
  with a b show ?thesis unfolding r using l m by simp
qed

section \<open>The member routes as they are wired\<close>

text \<open>
  No path of routes/listMembers.js binds \<open>id\<close>, so \<^verbatim>\<open>validateId\<close> fails on every
  request to them: each of the five routes answers 400 \<open>Validation failed\<close> and leaves
  the store as it was, whoever calls it and whatever the request holds. The handlers
  are never reached.
\<close>

lemma validateId_unbound: "map_of params ''id'' = None \<Longrightarrow> \<not> validateId params"
  by (simp add: validateId_def)

lemma member_routes_rejected:
  "addMember d u lid email role = (d, validation_failed ''ID must be a positive integer'')"
  "updateMemberRole d u lid uid role = (d, validation_failed ''ID must be a positive integer'')"
  "removeMember d u lid uid = (d, validation_failed ''ID must be a positive integer'')"
  "leaveList d u lid = (d, validation_failed ''ID must be a positive integer'')"
  "transferOwnership fault d u lid email_opt =
     (d, validation_failed ''ID must be a positive integer'')"
  by (simp_all add: addMember_def updateMemberRole_def removeMember_def leaveList_def
        transferOwnership_def validateId_def)

section \<open>Adding a member\<close>

text \<open>The checks of the handlers, in terms of the roles.\<close>

lemma may_manage_permission:
  "may_manage d lid uid \<longleftrightarrow> checkListPermission d uid lid False \<noteq> None"
  unfolding checkListPermission_admin_None may_manage_def is_owner_def is_admin_def by auto

lemma is_owner_owner_rows: "is_owner d lid uid \<longleftrightarrow> owner_rows d lid uid \<noteq> []"
  by (simp add: owner_rows_empty is_owner_def)

lemma has_membership_member_roles: "has_membership d lid uid \<longleftrightarrow> member_roles d lid uid \<noteq> []"
  by (simp add: member_roles_empty has_membership_def)

lemma users_by_email_member: "users_by_email d email = t # rest \<Longrightarrow> t \<in> set (users d)"
proof -
  assume "users_by_email d email = t # rest"
  then have "t \<in> set (filter (\<lambda>x. user_email x = email) (users d))"
    by (simp add: users_by_email_def)
  then show ?thesis by simp
qed

lemma addMember_handler_failure:
  "fst (snd (addMember_handler d u lid email role_opt)) \<noteq> 201 \<Longrightarrow>
   fst (addMember_handler d u lid email role_opt) = d"
  by (auto simp: addMember_handler_def Let_def internal_error_def
        split: option.splits list.splits sum.splits if_splits)

lemma addMember_validated_failure:
  "fst (snd (addMember_validated d u lid email role_opt)) \<noteq> 201 \<Longrightarrow>
   fst (addMember_validated d u lid email role_opt) = d"
  by (auto simp: addMember_validated_def dest: addMember_handler_failure)

lemma insert_member_ok:
  assumes "\<not> has_membership d lid uid" and "lid \<in> list_id ` set (lists d)"
    and "uid \<in> user_id ` set (users d)"
  shows "insert_member lid uid role d =
     Inr (d\<lparr>list_members := list_members d @ [\<lparr>m_list_id = lid, m_user_id = uid, m_role = role\<rparr>]\<rparr>)"
  using assms by (auto simp: insert_member_def has_membership_def)

text \<open>
  What POST /:listId/members does from \<^verbatim>\<open>validateListMember\<close> on, for a principal
  who is owner or admin of the list and a role that passes the validator: 404 and
  nothing written when no user has the e-mail; 409 and nothing written when the user
  found owns the list or has a membership row on it; otherwise 201 and exactly one new
  membership row. This is what C9 asks of the operation.
\<close>

lemma addMember_validated_outcomes:
  assumes "may_manage d lid (user_id u)" and "validateListMember role_opt"
  shows "(case users_by_email d email of
            [] \<Rightarrow> addMember_validated d u lid email role_opt =
                    (d, (404, err ''User not found with this email address''))
          | t # _ \<Rightarrow>
              if is_owner d lid (user_id t) \<or> has_membership d lid (user_id t)
              then fst (addMember_validated d u lid email role_opt) = d
                 \<and> fst (snd (addMember_validated d u lid email role_opt)) = 409
              else fst (addMember_validated d u lid email role_opt) =
                     d\<lparr>list_members := list_members d @
                         [\<lparr>m_list_id = lid, m_user_id = user_id t,
                           m_role = (case role_opt of None \<Rightarrow> ''member'' | Some r \<Rightarrow> r)\<rparr>]\<rparr>
                 \<and> fst (snd (addMember_validated d u lid email role_opt)) = 201)
       \<and> (fst (snd (addMember_validated d u lid email role_opt)) = 201
          \<or> fst (addMember_validated d u lid email role_opt) = d)"
proof -
  from assms(1) obtain p where p: "checkListPermission d (user_id u) lid False = Some p"
    unfolding may_manage_permission by auto
  have ex: "lid \<in> list_id ` set (lists d)"
    using assms(1) unfolding may_manage_def is_owner_def is_admin_def by auto
  have second: "fst (snd (addMember_validated d u lid email role_opt)) = 201
          \<or> fst (addMember_validated d u lid email role_opt) = d"
    using addMember_validated_failure[of d u lid email role_opt] by blast
  show ?thesis
  proof (cases "users_by_email d email")
    case Nil
    with p assms(2) second show ?thesis
      by (simp add: addMember_validated_def addMember_handler_def)
  next
    case (Cons t rest)
    show ?thesis
    proof (cases "is_owner d lid (user_id t) \<or> has_membership d lid (user_id t)")
      case True
      with Cons p assms(2) second show ?thesis
        by (auto simp: addMember_validated_def addMember_handler_def is_owner_owner_rows
              has_membership_member_roles Let_def)
    next
      case False
      then have no: "owner_rows d lid (user_id t) = []" "member_roles d lid (user_id t) = []"
        by (simp_all add: is_owner_owner_rows has_membership_member_roles)
      have "user_id t \<in> user_id ` set (users d)"
        using users_by_email_member[OF Cons] by simp
      with False ex have ins: "insert_member lid (user_id t)
            (case role_opt of None \<Rightarrow> ''member'' | Some r \<Rightarrow> r) d =
          Inr (d\<lparr>list_members := list_members d @
                 [\<lparr>m_list_id = lid, m_user_id = user_id t,
                   m_role = (case role_opt of None \<Rightarrow> ''member'' | Some r \<Rightarrow> r)\<rparr>]\<rparr>)"
        by (intro insert_member_ok) auto
      from Cons p assms(2) no ins False show ?thesis
        by (simp add: addMember_validated_def addMember_handler_def Let_def)
    qed
  qed
qed

text \<open>
  C9. The claim asks addMember for 404 on an unknown e-mail, 409 on the owner or a
  member, and one new membership row otherwise. In the small store Alice, the owner of
  list 1, posts to /lists/1/members for Carol (a user with no role on the list), for
  Dave (no such user) and for Bob (a member): the route answers 400
  \<open>Validation failed\<close> each time and writes nothing, where the chain from
  \<^verbatim>\<open>validateListMember\<close> on would answer 201, 404 and 409.
\<close>

theorem addMember_route_rejects:
  "may_manage groceries 1 (user_id alice)
   \<and> users_by_email groceries ''carol@example.com'' = [carol]
   \<and> \<not> is_owner groceries 1 (user_id carol) \<and> \<not> has_membership groceries 1 (user_id carol)
   \<and> addMember groceries alice 1 ''carol@example.com'' (Some ''admin'') =
       (groceries, (400, JObj [(''error'', JStr ''Validation failed''),
                               (''details'', JArr [JStr ''ID must be a positive integer''])]))
   \<and> fst (snd (addMember_validated groceries alice 1 ''carol@example.com'' (Some ''admin''))) = 201
   \<and> users_by_email groceries ''dave@example.com'' = []
   \<and> fst (snd (addMember groceries alice 1 ''dave@example.com'' (Some ''admin''))) = 400
   \<and> fst (snd (addMember_validated groceries alice 1 ''dave@example.com'' (Some ''admin''))) = 404
   \<and> has_membership groceries 1 (user_id bob)
   \<and> fst (snd (addMember groceries alice 1 ''bob@example.com'' (Some ''admin''))) = 400
   \<and> fst (snd (addMember_validated groceries alice 1 ''bob@example.com'' (Some ''admin''))) = 409"
proof -
  have h1: "may_manage groceries 1 (user_id alice)"
    by (simp add: may_manage_def is_owner_def groceries_def alice_def)
  have h2: "validateListMember (Some ''admin'')" by (simp add: validateListMember_def)
  have c: "users_by_email groceries ''carol@example.com'' = [carol]"
    and b: "users_by_email groceries ''bob@example.com'' = [bob]"
    and n: "users_by_email groceries ''dave@example.com'' = []"
    by (simp_all add: users_by_email_def ex_defs)
  have rc: "\<not> is_owner groceries 1 (user_id carol)" "\<not> has_membership groceries 1 (user_id carol)"
    and rb: "has_membership groceries 1 (user_id bob)"
    by (simp_all add: is_owner_def has_membership_def ex_defs)
  have route: "\<And>email. addMember groceries alice 1 email (Some ''admin'') =
       (groceries, (400, JObj [(''error'', JStr ''Validation failed''),
                               (''details'', JArr [JStr ''ID must be a positive integer''])]))"
    by (simp add: member_routes_rejected validation_failed_def)
  from addMember_validated_outcomes[OF h1 h2, of "''carol@example.com''"] c rc
  have 1: "fst (snd (addMember_validated groceries alice 1 ''carol@example.com'' (Some ''admin''))) = 201"
    by simp
  from addMember_validated_outcomes[OF h1 h2, of "''dave@example.com''"] n
  have 2: "fst (snd (addMember_validated groceries alice 1 ''dave@example.com'' (Some ''admin''))) = 404"
    by simp
  from addMember_validated_outcomes[OF h1 h2, of "''bob@example.com''"] b rb
  have 3: "fst (snd (addMember_validated groceries alice 1 ''bob@example.com'' (Some ''admin''))) = 409"
    by simp
  show ?thesis unfolding route using h1 c n rc rb 1 2 3 by simp
qed

section \<open>Membership operations aimed at the owner\<close>

text \<open>
  The two handlers, for a principal who is owner or admin of the list and a target who
  owns it. removeMember has an owner check and answers 400
  \<open>Cannot remove the list owner\<close>. updateMemberRole has none: its guard is the lookup of
  the target's membership row, which the owner does not have, so it answers 404
  \<open>User is not a member of this list\<close>. Neither writes.
\<close>

lemma owner_has_no_membership:
  "owner_not_member d \<Longrightarrow> is_owner d lid uid \<Longrightarrow> \<not> has_membership d lid uid"
  unfolding owner_not_member_def is_owner_def has_membership_def by fastforce

lemma removeMember_owner:
  assumes "may_manage d lid (user_id u)" and "is_owner d lid target"
  shows "removeMember_handler d u lid target = (d, (400, err ''Cannot remove the list owner''))"
proof -
  from assms(1) obtain p where "checkListPermission d (user_id u) lid False = Some p"
    unfolding may_manage_permission by auto
  with assms(2) show ?thesis
    by (simp add: removeMember_handler_def is_owner_owner_rows)
qed

lemma updateMemberRole_not_member:
  assumes "may_manage d lid (user_id u)" and "\<not> has_membership d lid target"
    and "role \<in> set [''member'', ''admin'']"
  shows "updateMemberRole_handler d u lid target (Some role) =
           (d, (404, err ''User is not a member of this list''))"
proof -
  from assms(1) obtain p where "checkListPermission d (user_id u) lid False = Some p"
    unfolding may_manage_permission by auto
  moreover from assms(3) have "role \<noteq> []" by auto
  ultimately show ?thesis
    using assms(2,3) by (simp add: updateMemberRole_handler_def has_membership_member_roles)
qed

lemma owner_target_handlers:
  assumes "owner_not_member d" and "may_manage d lid (user_id u)" and "is_owner d lid target"
  shows "removeMember_handler d u lid target = (d, (400, err ''Cannot remove the list owner''))
       \<and> (role \<in> set [''member'', ''admin''] \<longrightarrow>
            updateMemberRole_handler d u lid target (Some role) =
              (d, (404, err ''User is not a member of this list'')))
       \<and> fst (updateMemberRole_handler d u lid target role_opt) = d"
proof -
  have nm: "\<not> has_membership d lid target"
    using assms(1,3) by (rule owner_has_no_membership)
  have "fst (updateMemberRole_handler d u lid target role_opt) = d"
    using nm by (auto simp: updateMemberRole_handler_def has_membership_member_roles Let_def
        split: option.splits)
  with removeMember_owner[OF assms(2,3)] updateMemberRole_not_member[OF assms(2) nm]
  show ?thesis by blast
qed

text \<open>
  C5. The claim asks removeMember and updateMemberRole, aimed at the owner by a
  permitted principal, to fail as an invalid operation and to write nothing. In the
  small store Alice owns list 1. Her DELETE /lists/1/members/1 and her
  PUT /lists/1/members/1 with role admin are both answered by \<^verbatim>\<open>validateId\<close>: 400
  \<open>Validation failed\<close>, a validation error, with nothing written. Past the validator
  the removeMember handler would answer the 400 \<open>Cannot remove the list owner\<close> the
  claim asks for, and the updateMemberRole handler, which lacks the owner check of its
  sibling, would answer 404 \<open>User is not a member of this list\<close>.
\<close>

theorem owner_target_route_answers:
  "may_manage groceries 1 (user_id alice) \<and> is_owner groceries 1 1
   \<and> removeMember groceries alice 1 1 =
       (groceries, (400, JObj [(''error'', JStr ''Validation failed''),
                               (''details'', JArr [JStr ''ID must be a positive integer''])]))
   \<and> updateMemberRole groceries alice 1 1 (Some ''admin'') =
       (groceries, (400, JObj [(''error'', JStr ''Validation failed''),
                               (''details'', JArr [JStr ''ID must be a positive integer''])]))
   \<and> removeMember_handler groceries alice 1 1 =
       (groceries, (400, JObj [(''error'', JStr ''Cannot remove the list owner'')]))
   \<and> updateMemberRole_handler groceries alice 1 1 (Some ''admin'') =
       (groceries, (404, JObj [(''error'', JStr ''User is not a member of this list'')]))"
proof -
  have h0: "owner_not_member groceries" by (simp add: owner_not_member_def groceries_def)
  have h1: "may_manage groceries 1 (user_id alice)"
    by (simp add: may_manage_def is_owner_def groceries_def alice_def)
  have h2: "is_owner groceries 1 1" by (simp add: is_owner_def groceries_def)
  have r: "removeMember groceries alice 1 1 =
       (groceries, (400, JObj [(''error'', JStr ''Validation failed''),
                               (''details'', JArr [JStr ''ID must be a positive integer''])]))"
    and w: "updateMemberRole groceries alice 1 1 (Some ''admin'') =
       (groceries, (400, JObj [(''error'', JStr ''Validation failed''),
                               (''details'', JArr [JStr ''ID must be a positive integer''])]))"
    by (simp_all add: member_routes_rejected validation_failed_def)
  from owner_target_handlers[OF h0 h1 h2, of "''admin''" None]
  have "removeMember_handler groceries alice 1 1 =
       (groceries, (400, JObj [(''error'', JStr ''Cannot remove the list owner'')]))"
    and "updateMemberRole_handler groceries alice 1 1 (Some ''admin'') =
       (groceries, (404, JObj [(''error'', JStr ''User is not a member of this list'')]))"
    by (simp_all add: err_def)
  with h1 h2 r w show ?thesis by blast
qed

section \<open>The effective role\<close>

text \<open>
  Every membership operation writes the role member or admin only: the addMember
  handler after \<^verbatim>\<open>validateListMember\<close>, the updateMemberRole handler after its own
  check, the transfer with the constant admin. So \<open>roles_valid\<close> holds in every store the operations reach from
  one where it holds.
\<close>

lemma addMember_roles_valid:
  "roles_valid d \<Longrightarrow> roles_valid (fst (addMember_validated d u lid email role))"
  by (auto simp: addMember_validated_def validateListMember_def addMember_handler_def insert_member_def
        roles_valid_def Let_def split: option.splits list.splits if_splits)

lemma updateMemberRole_roles_valid:
  "roles_valid d \<Longrightarrow> roles_valid (fst (updateMemberRole_handler d u lid uid role))"
  by (auto simp: updateMemberRole_handler_def update_member_def roles_valid_def Let_def
        split: option.splits if_splits)

lemma delete_member_roles_valid:
  "roles_valid d \<Longrightarrow> roles_valid (fst (delete_member lid uid d))"
  by (auto simp: delete_member_def roles_valid_def)

lemma removeMember_roles_valid:
  "roles_valid d \<Longrightarrow> roles_valid (fst (removeMember_handler d u lid uid))"
  using delete_member_roles_valid[of d lid uid]
  by (auto simp: removeMember_handler_def split: option.splits prod.splits if_splits)

lemma leaveList_roles_valid: "roles_valid d \<Longrightarrow> roles_valid (fst (leaveList_handler d u lid))"
  using delete_member_roles_valid[of d lid "user_id u"]
  by (auto simp: leaveList_handler_def split: option.splits prod.splits if_splits)

lemma createList_roles_valid: "roles_valid d \<Longrightarrow> roles_valid (fst (createList d u name))"
  by (auto simp: createList_def insert_list_def roles_valid_def Let_def
        split: sum.splits if_splits)

lemma transfer_body_roles_valid:
  assumes "roles_valid d" and "transfer_body fault lid new old d = Inr d'"
  shows "roles_valid d'"
proof -
  from assms(2) obtain d2 where
    ins: "insert_member lid old ''admin'' (fst (delete_member lid new d)) = Inr d2"
    and upd: "update_owner new lid d2 = Inr d'"
    by (auto simp: transfer_body_def stmt_def split: if_splits sum.splits)
  from ins have "roles_valid d2"
    using delete_member_roles_valid[OF assms(1), of lid new]
    by (auto simp: insert_member_def roles_valid_def split: if_splits)
  with upd show ?thesis
    by (auto simp: update_owner_def roles_valid_def split: if_splits)
qed

lemma transferOwnership_roles_valid:
  "roles_valid d \<Longrightarrow> roles_valid (fst (transferOwnership_handler fault d u lid email))"
  by (auto simp: transferOwnership_handler_def dest: transfer_body_roles_valid
        split: option.splits list.splits sum.splits if_splits)

lemma apply_op_roles_valid: "roles_valid d \<Longrightarrow> roles_valid (apply_op d x)"
  by (cases x)
    (simp_all add: createList_roles_valid addMember_roles_valid updateMemberRole_roles_valid
       removeMember_roles_valid leaveList_roles_valid transferOwnership_roles_valid)

lemma run_roles_valid: "roles_valid d \<Longrightarrow> roles_valid (run d ops)"
  unfolding run_def by (induction ops arbitrary: d) (simp_all add: apply_op_roles_valid)

text \<open>
  Under the primary keys of lists and users, for a list \<open>L\<close> of the store whose owner is a
  user of the store, the access query of GET /:id gives one row when the user is the
  owner (the join always has a row for the list), the rows of the user's membership
  otherwise.
\<close>

lemma find_filter_first:
  "find P xs = (case filter P xs of [] \<Rightarrow> None | x # _ \<Rightarrow> Some x)"
  by (induction xs) auto

lemma accessCheck_one_list:
  assumes "distinct (map list_id (lists d))" and "distinct (map user_id (users d))"
    and "L \<in> set (lists d)" and "w \<in> set (users d)" and "user_id w = owner_id L"
  shows "accessCheck d uid (list_id L) =
     concat (map (\<lambda>lm. if owner_id L = uid \<or> map_option m_user_id lm = Some uid
                         then [\<lparr>ar_id = list_id L, ar_name = list_name L, ar_owner_id = owner_id L,
                                ar_owner_name = user_name w,
                                ar_user_role = (if owner_id L = uid then Some ''owner''
                                                else map_option m_role lm)\<rparr>]
                         else [])
              (left_join_member d L uid))"
proof -
  have fl: "filter (\<lambda>l. list_id l = list_id L) (lists d) = [L]"
    using assms(1,3) by (rule filter_key_singleton)
  have "filter (\<lambda>x. user_id x = user_id w) (users d) = [w]"
    using assms(2,4) by (rule filter_key_singleton)
  then have fw: "filter (\<lambda>x. user_id x = owner_id L) (users d) = [w]"
    by (simp add: assms(5))
  show ?thesis by (simp add: accessCheck_def fl fw)
qed

lemma user_role_value:
  assumes "distinct (map list_id (lists d))" and "distinct (map user_id (users d))"
    and "L \<in> set (lists d)" and "owner_id L \<in> user_id ` set (users d)"
  shows "user_role d uid (list_id L) =
           (if owner_id L = uid then Some ''owner''
            else map_option m_role
                   (find (\<lambda>m. m_list_id m = list_id L \<and> m_user_id m = uid) (list_members d)))"
proof -
  from assms(4) obtain w where w: "w \<in> set (users d)" "user_id w = owner_id L" by auto
  note ac = accessCheck_one_list[OF assms(1,2,3) w, of uid]
  show ?thesis
  proof (cases "filter (\<lambda>m. m_list_id m = list_id L \<and> m_user_id m = uid) (list_members d)")
    case Nil
    then have lj: "left_join_member d L uid = [None]" by (simp add: left_join_member_def)
    show ?thesis
      by (simp add: user_role_def ac lj find_filter_first Nil)
  next
    case (Cons m ms)
    then have "m \<in> set (filter (\<lambda>m. m_list_id m = list_id L \<and> m_user_id m = uid) (list_members d))"
      by simp
    then have mu: "m_user_id m = uid" by simp
    have lj: "left_join_member d L uid = Some m # map Some ms"
      using Cons by (simp add: left_join_member_def)
    show ?thesis
      by (simp add: user_role_def ac lj find_filter_first Cons mu)
  qed
qed

lemma find_member_role:
  assumes "roles_valid d"
    and "find P (list_members d) = Some m"
  shows "m_role m = ''member'' \<or> m_role m = ''admin''"
proof -
  from assms(2) have "m \<in> set (list_members d)"
    by (auto simp: find_Some_iff)
  with assms(1) show ?thesis by (auto simp: roles_valid_def)
qed

lemma find_member_None:
  "find (\<lambda>m. m_list_id m = lid \<and> m_user_id m = uid) (list_members d) = None
   \<longleftrightarrow> \<not> has_membership d lid uid"
  by (auto simp: find_None_iff has_membership_def)

text \<open>
  C1. Under the primary keys of lists and users, the foreign key of \<open>L.owner_id\<close> and
  roles member or admin in every membership row: the role GET /:id gives a user on a
  list \<open>L\<close> of the store is owner when the user is \<open>L\<close>'s owner, else the role of the
  membership row keyed by the list and the user when there is one, else none (no row,
  the 404); it is owner if and only if the user is the owner; it is one of owner, admin,
  member and none; and it is none exactly when \<^verbatim>\<open>checkListAccess\<close> of the task
  routes denies access.
\<close>

theorem effective_role:
  assumes "distinct (map list_id (lists d))" and "distinct (map user_id (users d))"
    and "L \<in> set (lists d)" and "owner_id L \<in> user_id ` set (users d)" and "roles_valid d"
  shows "user_role d uid (list_id L) =
           (if owner_id L = uid then Some ''owner''
            else map_option m_role
                   (find (\<lambda>m. m_list_id m = list_id L \<and> m_user_id m = uid) (list_members d)))
       \<and> (user_role d uid (list_id L) = Some ''owner'' \<longleftrightarrow> owner_id L = uid)
       \<and> user_role d uid (list_id L) \<in> {Some ''owner'', Some ''admin'', Some ''member'', None}
       \<and> (user_role d uid (list_id L) = None \<longleftrightarrow> checkListAccess d uid (list_id L) = None)"
proof -
  let ?f = "find (\<lambda>m. m_list_id m = list_id L \<and> m_user_id m = uid) (list_members d)"
  note v = user_role_value[OF assms(1-4), of uid]
  have r: "?f = None \<or> (\<exists>m. ?f = Some m \<and> (m_role m = ''member'' \<or> m_role m = ''admin''))"
    using find_member_role[OF assms(5)] by (cases ?f) auto
  have uniq: "\<And>l. l \<in> set (lists d) \<Longrightarrow> list_id l = list_id L \<Longrightarrow> l = L"
    using pk_unique[OF assms(1,3)] by blast
  have acc: "checkListAccess d uid (list_id L) = None \<longleftrightarrow>
      \<not> (owner_id L = uid \<or> has_membership d (list_id L) uid)"
    unfolding checkListAccess_None has_membership_def using assms(3) uniq by blast
  have 2: "user_role d uid (list_id L) = Some ''owner'' \<longleftrightarrow> owner_id L = uid"
    unfolding v using r by auto
  have 3: "user_role d uid (list_id L) \<in> {Some ''owner'', Some ''admin'', Some ''member'', None}"
    unfolding v using r by auto
  have 4: "user_role d uid (list_id L) = None \<longleftrightarrow> checkListAccess d uid (list_id L) = None"
    unfolding v acc using find_member_None[of "list_id L" uid d] by auto
  from v 2 3 4 show ?thesis by blast
qed

theorem effective_role_witness:
  "distinct (map list_id (lists groceries)) \<and> distinct (map user_id (users groceries))
   \<and> \<lparr>list_id = 1, list_name = ''Groceries'', owner_id = 1\<rparr> \<in> set (lists groceries)
   \<and> roles_valid groceries
   \<and> user_role groceries 1 1 = Some ''owner''
   \<and> user_role groceries 2 1 = Some ''member''
   \<and> user_role groceries 3 1 = None"
proof -
  let ?L = "\<lparr>list_id = 1, list_name = ''Groceries'', owner_id = 1\<rparr>"
  have h1: "distinct (map list_id (lists groceries))" by (simp add: groceries_def)
  have h2: "distinct (map user_id (users groceries))" by (simp add: ex_defs)
  have h3: "?L \<in> set (lists groceries)" by (simp add: groceries_def)
  have h4: "owner_id ?L \<in> user_id ` set (users groceries)" by (simp add: ex_defs)
  have h5: "roles_valid groceries" by (simp add: roles_valid_def groceries_def)
  have a: "user_role groceries 1 1 = Some ''owner''"
    using effective_role[OF h1 h2 h3 h4 h5, of 1] by simp
  have b: "user_role groceries 2 1 = Some ''member''"
    using effective_role[OF h1 h2 h3 h4 h5, of 2] by (simp add: groceries_def)
  have c: "user_role groceries 3 1 = None"
    using effective_role[OF h1 h2 h3 h4 h5, of 3] by (simp add: groceries_def)
  from h1 h2 h3 h5 a b c show ?thesis by blast
qed

end
